theory Spec2Isabelle
  imports Main "HOL-Library.Word"
begin

section \<open>JavaScript strings\<close>

text \<open>
  A JavaScript string is a sequence of 16-bit code units. The literals of the source are
  written \<open>js ''...''\<close>: every character of an ASCII literal is one code unit.
\<close>

type_synonym jschar = "16 word"
type_synonym jsstring = "jschar list"

definition js :: "string \<Rightarrow> jsstring" where
  "js s = map (\<lambda>c. of_nat (of_char c)) s"

text \<open>The exceptions the two classes can raise.\<close>

datatype error = InvalidArgumentException | URIError

text \<open>String concatenation in front of a result that may be an exception.\<close>

fun prepend :: "jsstring \<Rightarrow> error + jsstring \<Rightarrow> error + jsstring" where
  "prepend s (Inl e) = Inl e"
| "prepend s (Inr r) = Inr (s @ r)"

subsection \<open>\<open>String.prototype.split\<close> with a one-character separator\<close>

text \<open>
  \<open>split\<close> cuts at every occurrence of the separator; the empty string gives one empty
  piece, and a separator at either end gives an empty piece there.
\<close>

fun split :: "jschar \<Rightarrow> jsstring \<Rightarrow> jsstring list" where
  "split sep [] = [[]]"
| "split sep (c # cs) =
     (if c = sep then [] # split sep cs
      else (case split sep cs of
              [] \<Rightarrow> [[c]]
            | p # ps \<Rightarrow> (c # p) # ps))"

text \<open>\<open>Array.prototype.shift\<close>: the first element (\<open>undefined\<close> on the empty array) and the rest.\<close>

fun shift :: "'a list \<Rightarrow> 'a option \<times> 'a list" where
  "shift [] = (None, [])"
| "shift (x # xs) = (Some x, xs)"

text \<open>\<open>x || ''\<close> for a string or \<open>undefined\<close>: the empty string is falsy and is its own default.\<close>

fun or_empty :: "jsstring option \<Rightarrow> jsstring" where
  "or_empty None = []"
| "or_empty (Some s) = s"

subsection \<open>\<open>String.prototype.trimLeft\<close>\<close>

text \<open>
  The code units ECMAScript strips: WhiteSpace (TAB, VT, FF, SP, NBSP, ZWNBSP and the
  space separators of Unicode) and LineTerminator (LF, CR, LS, PS).
\<close>

definition isWhiteSpace :: "jschar \<Rightarrow> bool" where
  "isWhiteSpace c =
     (let u = unat c in
        u = 0x09 \<or> u = 0x0A \<or> u = 0x0B \<or> u = 0x0C \<or> u = 0x0D \<or> u = 0x20 \<or> u = 0xA0
      \<or> u = 0x1680 \<or> (0x2000 \<le> u \<and> u \<le> 0x200A) \<or> u = 0x2028 \<or> u = 0x2029
      \<or> u = 0x202F \<or> u = 0x205F \<or> u = 0x3000 \<or> u = 0xFEFF)"

definition trimLeft :: "jsstring \<Rightarrow> jsstring" where
  "trimLeft s = dropWhile isWhiteSpace s"

section \<open>\<open>encodeURIComponent\<close> and \<open>decodeURIComponent\<close>\<close>

text \<open>
  The two built-ins follow the abstract operations Encode and Decode of ECMA-262
  (section 19.2.6). Code points and octets are natural numbers; code units are words.
\<close>

subsection \<open>Hexadecimal octets\<close>

definition hexDigit :: "nat \<Rightarrow> jschar" where
  \<comment> \<open>uppercase digit of a value below 16\<close>
  "hexDigit d = (if d < 10 then of_nat (0x30 + d) else of_nat (0x41 + (d - 10)))"

definition hexValue :: "jschar \<Rightarrow> nat option" where
  "hexValue c =
     (let u = unat c in
        if 0x30 \<le> u \<and> u \<le> 0x39 then Some (u - 0x30)
        else if 0x41 \<le> u \<and> u \<le> 0x46 then Some (u - 0x41 + 10)
        else if 0x61 \<le> u \<and> u \<le> 0x66 then Some (u - 0x61 + 10)
        else None)"

text \<open>\<open>"%" + hex\<close>, the octet as two uppercase digits.\<close>

definition pctOctet :: "nat \<Rightarrow> jsstring" where
  "pctOctet b = [0x25, hexDigit (b div 16), hexDigit (b mod 16)]"

text \<open>ParseHexOctet on the two code units after a percent sign.\<close>

fun ParseHexOctet :: "jsstring \<Rightarrow> nat option" where
  "ParseHexOctet [h, l] =
     (case hexValue h of
        None \<Rightarrow> None
      | Some a \<Rightarrow> (case hexValue l of None \<Rightarrow> None | Some b \<Rightarrow> Some (16 * a + b)))"
| "ParseHexOctet _ = None"

subsection \<open>UTF-16\<close>

record CodePointRecord =
  CodePoint :: nat
  CodeUnitCount :: nat
  IsUnpairedSurrogate :: bool

definition isLeadingSurrogate :: "nat \<Rightarrow> bool" where
  "isLeadingSurrogate u = (0xD800 \<le> u \<and> u \<le> 0xDBFF)"

definition isTrailingSurrogate :: "nat \<Rightarrow> bool" where
  "isTrailingSurrogate u = (0xDC00 \<le> u \<and> u \<le> 0xDFFF)"

text \<open>CodePointAt at the head of a non-empty string (the empty string cannot be asked).\<close>

fun CodePointAt :: "jsstring \<Rightarrow> CodePointRecord" where
  "CodePointAt [] = \<lparr>CodePoint = 0, CodeUnitCount = 0, IsUnpairedSurrogate = False\<rparr>"
| "CodePointAt (c # cs) =
     (let first = unat c in
        if \<not> isLeadingSurrogate first \<and> \<not> isTrailingSurrogate first
        then \<lparr>CodePoint = first, CodeUnitCount = 1, IsUnpairedSurrogate = False\<rparr>
        else if isTrailingSurrogate first \<or> cs = []
        then \<lparr>CodePoint = first, CodeUnitCount = 1, IsUnpairedSurrogate = True\<rparr>
        else (let second = unat (hd cs) in
                if \<not> isTrailingSurrogate second
                then \<lparr>CodePoint = first, CodeUnitCount = 1, IsUnpairedSurrogate = True\<rparr>
                else \<lparr>CodePoint = (first - 0xD800) * 0x400 + (second - 0xDC00) + 0x10000,
                      CodeUnitCount = 2, IsUnpairedSurrogate = False\<rparr>))"

definition UTF16EncodeCodePoint :: "nat \<Rightarrow> jsstring" where
  "UTF16EncodeCodePoint cp =
     (if cp \<le> 0xFFFF then [of_nat cp]
      else [of_nat ((cp - 0x10000) div 0x400 + 0xD800),
            of_nat ((cp - 0x10000) mod 0x400 + 0xDC00)])"

subsection \<open>UTF-8\<close>

definition utf8_encode :: "nat \<Rightarrow> nat list" where
  "utf8_encode cp =
     (if cp < 0x80 then [cp]
      else if cp < 0x800 then [0xC0 + cp div 0x40, 0x80 + cp mod 0x40]
      else if cp < 0x10000
      then [0xE0 + cp div 0x1000, 0x80 + (cp div 0x40) mod 0x40, 0x80 + cp mod 0x40]
      else [0xF0 + cp div 0x40000, 0x80 + (cp div 0x1000) mod 0x40,
            0x80 + (cp div 0x40) mod 0x40, 0x80 + cp mod 0x40])"

text \<open>The number of leading 1 bits of an octet.\<close>

definition leading_ones :: "nat \<Rightarrow> nat" where
  "leading_ones b =
     (if b < 0x80 then 0 else if b < 0xC0 then 1 else if b < 0xE0 then 2
      else if b < 0xF0 then 3 else if b < 0xF8 then 4 else if b < 0xFC then 5
      else if b < 0xFE then 6 else if b < 0xFF then 7 else 8)"

definition isContinuation :: "nat \<Rightarrow> bool" where
  "isContinuation b = (0x80 \<le> b \<and> b \<le> 0xBF)"

text \<open>
  The well-formed UTF-8 sequences of two to four octets (Unicode, table 3-7): no overlong
  form, no surrogate, nothing above U+10FFFF.
\<close>

fun valid_utf8 :: "nat list \<Rightarrow> bool" where
  "valid_utf8 [b1, b2] = (0xC2 \<le> b1 \<and> b1 \<le> 0xDF \<and> isContinuation b2)"
| "valid_utf8 [b1, b2, b3] =
     (isContinuation b3 \<and>
      (if b1 = 0xE0 then 0xA0 \<le> b2 \<and> b2 \<le> 0xBF
       else if b1 = 0xED then 0x80 \<le> b2 \<and> b2 \<le> 0x9F
       else 0xE1 \<le> b1 \<and> b1 \<le> 0xEF \<and> isContinuation b2))"
| "valid_utf8 [b1, b2, b3, b4] =
     (isContinuation b3 \<and> isContinuation b4 \<and>
      (if b1 = 0xF0 then 0x90 \<le> b2 \<and> b2 \<le> 0xBF
       else if b1 = 0xF4 then 0x80 \<le> b2 \<and> b2 \<le> 0x8F
       else 0xF1 \<le> b1 \<and> b1 \<le> 0xF3 \<and> isContinuation b2))"
| "valid_utf8 _ = False"

text \<open>The code point of a well-formed sequence.\<close>

fun utf8_value :: "nat list \<Rightarrow> nat" where
  "utf8_value [b1, b2] = (b1 - 0xC0) * 0x40 + (b2 - 0x80)"
| "utf8_value [b1, b2, b3] = (b1 - 0xE0) * 0x1000 + (b2 - 0x80) * 0x40 + (b3 - 0x80)"
| "utf8_value [b1, b2, b3, b4] =
     (b1 - 0xF0) * 0x40000 + (b2 - 0x80) * 0x1000 + (b3 - 0x80) * 0x40 + (b4 - 0x80)"
| "utf8_value _ = 0"

subsection \<open>Encode\<close>

text \<open>The code units \<open>encodeURIComponent\<close> leaves alone: \<open>A-Z a-z 0-9 - _ . ! ~ * ' ( )\<close>.\<close>

definition unescapedSet :: "jschar \<Rightarrow> bool" where
  "unescapedSet c =
     (let u = unat c in
        (0x41 \<le> u \<and> u \<le> 0x5A) \<or> (0x61 \<le> u \<and> u \<le> 0x7A) \<or> (0x30 \<le> u \<and> u \<le> 0x39)
      \<or> u = 0x2D \<or> u = 0x5F \<or> u = 0x2E \<or> u = 0x21 \<or> u = 0x7E \<or> u = 0x2A
      \<or> u = 0x27 \<or> u = 0x28 \<or> u = 0x29)"

fun encodeURIComponent :: "jsstring \<Rightarrow> error + jsstring" where
  "encodeURIComponent [] = Inr []"
| "encodeURIComponent (C # cs) =
     (if unescapedSet C then prepend [C] (encodeURIComponent cs)
      else (let cp = CodePointAt (C # cs) in
              if IsUnpairedSurrogate cp then Inl URIError
              else prepend (concat (map pctOctet (utf8_encode (CodePoint cp))))
                     (encodeURIComponent (drop (CodeUnitCount cp - 1) cs))))"

subsection \<open>Decode\<close>

text \<open>
  The inner loop of Decode: \<open>j\<close> more groups \<open>%XX\<close> are read from the string; a short
  string, a missing percent sign or a non-hexadecimal digit is an error.
\<close>

fun continuationBytes :: "nat \<Rightarrow> jsstring \<Rightarrow> nat list option" where
  "continuationBytes 0 s = Some []"
| "continuationBytes (Suc j) s =
     (if length s < 3 then None
      else if hd s \<noteq> 0x25 then None
      else (case ParseHexOctet (take 2 (tl s)) of
              None \<Rightarrow> None
            | Some b \<Rightarrow> (case continuationBytes j (drop 3 s) of
                          None \<Rightarrow> None
                        | Some bs \<Rightarrow> Some (b # bs))))"

fun decodeURIComponent :: "jsstring \<Rightarrow> error + jsstring" where
  "decodeURIComponent [] = Inr []"
| "decodeURIComponent (C # cs) =
     (if C \<noteq> 0x25 then prepend [C] (decodeURIComponent cs)
      else if length cs < 2 then Inl URIError
      else (case ParseHexOctet (take 2 cs) of
              None \<Rightarrow> Inl URIError
            | Some B \<Rightarrow>
                (let n = leading_ones B in
                   if n = 0 then prepend [of_nat B] (decodeURIComponent (drop 2 cs))
                   else if n = 1 \<or> n > 4 then Inl URIError
                   else (case continuationBytes (n - 1) (drop 2 cs) of
                           None \<Rightarrow> Inl URIError
                         | Some octets \<Rightarrow>
                             if \<not> valid_utf8 (B # octets) then Inl URIError
                             else prepend (UTF16EncodeCodePoint (utf8_value (B # octets)))
                                    (decodeURIComponent (drop (2 + 3 * (n - 1)) cs))))))"

section \<open>Numbers, time and the external collaborators\<close>

text \<open>
  A JavaScript number that holds a timestamp: an integer count of milliseconds (or of
  seconds), or one of the three non-finite values. Fractional values are outside the model.
\<close>

datatype number = Num int | NaN | PosInfinity | NegInfinity

text \<open>The relational operator \<open><\<close> on numbers; every comparison with NaN is false.\<close>

fun number_less :: "number \<Rightarrow> number \<Rightarrow> bool" where
  "number_less (Num a) (Num b) = (a < b)"
| "number_less (Num a) PosInfinity = True"
| "number_less NegInfinity (Num b) = True"
| "number_less NegInfinity PosInfinity = True"
| "number_less _ _ = False"

text \<open>
  What the cookie class takes from outside the repository: the clock, the date library
  \<open>dayjs\<close>, \<open>Redate.responseFormat\<close> of the support package and the conversion of a
  number to a string. They are parameters of the model.
\<close>

record Env =
  Date_now :: number
  dayjs_isValid :: "number \<Rightarrow> bool"
  dayjs_subtract_year :: "nat \<Rightarrow> number \<Rightarrow> number"
  dayjs_add_year :: "nat \<Rightarrow> number \<Rightarrow> number"
  dayjs_diff_second :: "number \<Rightarrow> number \<Rightarrow> number"
  Redate_responseFormat :: "number \<Rightarrow> jsstring"
  Number_toString :: "number \<Rightarrow> jsstring"

text \<open>
  \<^item> \<open>Date_now\<close>: the reading of the clock, \<open>Date.now()\<close> and \<open>dayjs()\<close>;
  \<^item> \<open>dayjs_isValid t\<close>: \<open>dayjs(t).isValid()\<close>;
  \<^item> \<open>dayjs_subtract_year k t\<close>: \<open>dayjs(t).subtract(k, 'year').valueOf()\<close>, and
    \<open>dayjs_add_year\<close> likewise;
  \<^item> \<open>dayjs_diff_second a b\<close>: \<open>dayjs(a).diff(dayjs(b), 'second')\<close>;
  \<^item> \<open>Number_toString n\<close>: the string that \<open>'...' + n\<close> appends.
\<close>

text \<open>
  Modelled from the spec: the enum \<open>SameSite\<close> is declared in the contracts package. The
  spec gives it the three states None, Lax and Strict and the string form \<open>strict\<close> of
  Strict; the other two forms follow the same pattern.
\<close>

datatype SameSite = NONE | LAX | STRICT

fun SameSite_valueOf :: "SameSite \<Rightarrow> jsstring" where
  "SameSite_valueOf NONE = js ''none''"
| "SameSite_valueOf LAX = js ''lax''"
| "SameSite_valueOf STRICT = js ''strict''"

section \<open>The class \<open>Cookie\<close>\<close>

text \<open>The fields \<open>_name\<close>, \<open>_value\<close>, ... of the class.\<close>

record Cookie =
  c_name :: jsstring
  c_value :: jsstring
  c_expiresAt :: number
  c_path :: jsstring
  c_domain :: jsstring
  c_secure :: bool
  c_httpOnly :: bool
  c_raw :: bool
  c_sameSite :: SameSite

definition new_Cookie ::
  "jsstring \<Rightarrow> jsstring \<Rightarrow> number \<Rightarrow> jsstring \<Rightarrow> jsstring \<Rightarrow> bool \<Rightarrow> bool \<Rightarrow> bool \<Rightarrow> SameSite \<Rightarrow> Cookie"
where
  "new_Cookie name val expiresAt path domain secure httpOnly raw sameSite =
     \<lparr>c_name = name, c_value = val, c_expiresAt = expiresAt, c_path = path,
      c_domain = domain, c_secure = secure, c_httpOnly = httpOnly, c_raw = raw,
      c_sameSite = sameSite\<rparr>"

text \<open>\<open>new Cookie(name, value)\<close>: the other parameters take their defaults.\<close>

definition new_Cookie2 :: "jsstring \<Rightarrow> jsstring \<Rightarrow> Cookie" where
  "new_Cookie2 name val = new_Cookie name val (Num 0) (js ''/'') [] False False True NONE"

text \<open>
  A method that can raise returns the exception or its result, and the instance as the
  call leaves it. The setters return \<open>this\<close>; the model returns the updated record.
\<close>

definition setValue :: "jsstring \<Rightarrow> Cookie \<Rightarrow> Cookie" where
  "setValue v c = c\<lparr>c_value := v\<rparr>"

definition setExpire :: "Env \<Rightarrow> number \<Rightarrow> Cookie \<Rightarrow> (error + unit) \<times> Cookie" where
  "setExpire env timestamp c =
     (if timestamp \<noteq> Num 0 \<and> \<not> dayjs_isValid env timestamp
      then (Inl InvalidArgumentException, c)
      else (Inr (), c\<lparr>c_expiresAt := timestamp\<rparr>))"

definition expire :: "Env \<Rightarrow> Cookie \<Rightarrow> (error + unit) \<times> Cookie" where
  "expire env c =
     (let pastTime = dayjs_subtract_year env 13 (Date_now env) in setExpire env pastTime c)"

definition forever :: "Env \<Rightarrow> Cookie \<Rightarrow> (error + unit) \<times> Cookie" where
  "forever env c =
     (let futureTime = dayjs_add_year env 13 (Date_now env) in setExpire env futureTime c)"

definition setPath :: "jsstring \<Rightarrow> Cookie \<Rightarrow> Cookie" where
  "setPath p c = c\<lparr>c_path := p\<rparr>"

definition setDomain :: "jsstring \<Rightarrow> Cookie \<Rightarrow> Cookie" where
  "setDomain d c = c\<lparr>c_domain := d\<rparr>"

definition setSecure :: "bool \<Rightarrow> Cookie \<Rightarrow> Cookie" where
  "setSecure b c = c\<lparr>c_secure := b\<rparr>"

definition setHttpOnly :: "bool \<Rightarrow> Cookie \<Rightarrow> Cookie" where
  "setHttpOnly b c = c\<lparr>c_httpOnly := b\<rparr>"

definition setRaw :: "bool \<Rightarrow> Cookie \<Rightarrow> Cookie" where
  "setRaw b c = c\<lparr>c_raw := b\<rparr>"

definition setSameSite :: "SameSite \<Rightarrow> Cookie \<Rightarrow> Cookie" where
  "setSameSite s c = c\<lparr>c_sameSite := s\<rparr>"

definition getName :: "Cookie \<Rightarrow> jsstring" where
  "getName c = c_name c"

definition getValue :: "Cookie \<Rightarrow> jsstring" where
  "getValue c = c_value c"

definition getExpiry :: "Cookie \<Rightarrow> number" where
  "getExpiry c = c_expiresAt c"

definition getMaxAge :: "Env \<Rightarrow> Cookie \<Rightarrow> number" where
  "getMaxAge env c =
     (if getExpiry c = Num 0 then Num 0
      else (let secondsFromNow = dayjs_diff_second env (getExpiry c) (Date_now env) in
              if number_less (Num 0) secondsFromNow then secondsFromNow else Num 0))"

definition hasExpired :: "Env \<Rightarrow> Cookie \<Rightarrow> bool" where
  "hasExpired env c = (getMaxAge env c = Num 0)"

definition getPath :: "Cookie \<Rightarrow> jsstring" where
  "getPath c = c_path c"

definition getDomain :: "Cookie \<Rightarrow> jsstring" where
  "getDomain c = c_domain c"

definition isSecure :: "Cookie \<Rightarrow> bool" where
  "isSecure c = c_secure c"

definition isHttpOnly :: "Cookie \<Rightarrow> bool" where
  "isHttpOnly c = c_httpOnly c"

definition isRaw :: "Cookie \<Rightarrow> bool" where
  "isRaw c = c_raw c"

definition getSameSite :: "Cookie \<Rightarrow> SameSite" where
  "getSameSite c = c_sameSite c"

definition rawIfNeededOf :: "Cookie \<Rightarrow> jsstring \<Rightarrow> error + jsstring" where
  "rawIfNeededOf c v = (if isRaw c then Inr v else encodeURIComponent v)"

subsection \<open>\<open>toString\<close>\<close>

text \<open>
  The five conditional appends that end \<open>toString\<close>, in the order of the source. A
  string is truthy when it is not empty.
\<close>

definition attr_path :: "Cookie \<Rightarrow> jsstring" where
  "attr_path c = (if getPath c \<noteq> [] then js ''; path='' @ getPath c else [])"

definition attr_domain :: "Cookie \<Rightarrow> jsstring" where
  "attr_domain c = (if getDomain c \<noteq> [] then js ''; domain='' @ getDomain c else [])"

definition attr_secure :: "Cookie \<Rightarrow> jsstring" where
  "attr_secure c = (if isSecure c then js ''; secure'' else [])"

definition attr_httponly :: "Cookie \<Rightarrow> jsstring" where
  "attr_httponly c = (if isHttpOnly c then js ''; httponly'' else [])"

definition attr_samesite :: "Cookie \<Rightarrow> jsstring" where
  "attr_samesite c =
     (if NONE \<noteq> getSameSite c then js ''; samesite='' @ SameSite_valueOf (getSameSite c)
      else [])"

definition attributes :: "Cookie \<Rightarrow> jsstring" where
  "attributes c =
     attr_path c @ attr_domain c @ attr_secure c @ attr_httponly c @ attr_samesite c"

text \<open>
  \<open>toString\<close> returns the header text or the exception, and the instance after the call:
  the branch of the empty value calls \<open>expire\<close> on it.
\<close>

definition toString :: "Env \<Rightarrow> Cookie \<Rightarrow> (error + jsstring) \<times> Cookie" where
  "toString env c =
     (case rawIfNeededOf c (getName c) of
        Inl e \<Rightarrow> (Inl e, c)
      | Inr nm \<Rightarrow>
          (let cookie = nm @ js ''='' in
             if getValue c = [] then
               (case expire env c of
                  (Inl e, c') \<Rightarrow> (Inl e, c')
                | (Inr u, c') \<Rightarrow>
                    (Inr (cookie @ js ''; expires='' @ Redate_responseFormat env (getExpiry c')
                            @ js ''; Max-Age=0'' @ attributes c'), c'))
             else
               (case rawIfNeededOf c (getValue c) of
                  Inl e \<Rightarrow> (Inl e, c)
                | Inr v \<Rightarrow>
                    (let cookie1 = cookie @ v;
                         cookie2 = (if getExpiry c \<noteq> Num 0
                                    then cookie1 @ js ''; expires=''
                                           @ Redate_responseFormat env (getExpiry c)
                                    else cookie1);
                         cookie3 = cookie2 @ js ''; Max-Age=''
                                     @ Number_toString env (getMaxAge env c)
                     in (Inr (cookie3 @ attributes c), c)))))"

section \<open>Objects used as dictionaries\<close>

text \<open>
  \<open>_incoming\<close> and \<open>_queue\<close> are objects created by the literal \<open>{}\<close> and indexed by a
  cookie name. Reading \<open>o[name]\<close> follows the prototype chain, writing \<open>o[name] = v\<close>
  runs the setter of \<open>__proto__\<close> when it reaches it, and \<open>delete o[name]\<close> removes an own
  property only. The values that such a read can return:
\<close>

datatype jsvalue =
    Undefined
  | Null
  | Boolean bool
  | Number number
  | String jsstring
  | Function jsstring
  | ObjectPrototype
  | Instance ICookie
and ICookie =
    CookieInstance Cookie
  | OtherICookie jsstring "(jsstring \<times> jsvalue) list"

text \<open>
  \<^item> \<open>Function f\<close> is the function of qualified name \<open>f\<close>, \<open>ObjectPrototype\<close> the object
    \<open>Object.prototype\<close>;
  \<^item> \<open>CookieInstance c\<close> is an instance of the class \<open>Cookie\<close> with the fields \<open>c\<close>. No
    method of the manager changes a cookie, so the instance is held as its fields;
  \<^item> \<open>OtherICookie n ps\<close> is an object of another class behind the interface \<open>ICookie\<close>,
    one whose chain of prototypes does not pass through \<open>Cookie.prototype\<close>: \<open>getName()\<close>
    returns \<open>n\<close>, and \<open>ps\<close> lists the writable data properties found on the object and on
    its prototypes below \<open>Object.prototype\<close>, where its chain ends.
\<close>

text \<open>JavaScript's ToBoolean, which decides \<open>x || null\<close>.\<close>

fun truthy :: "jsvalue \<Rightarrow> bool" where
  "truthy Undefined = False"
| "truthy Null = False"
| "truthy (Boolean b) = b"
| "truthy (Number n) = (n \<noteq> Num 0 \<and> n \<noteq> NaN)"
| "truthy (String s) = (s \<noteq> [])"
| "truthy (Function f) = True"
| "truthy ObjectPrototype = True"
| "truthy (Instance i) = True"

text \<open>\<open>v instanceof Cookie\<close>: \<open>Cookie.prototype\<close> is on the chain of prototypes of \<open>v\<close>.\<close>

fun instanceof_Cookie :: "jsvalue \<Rightarrow> bool" where
  "instanceof_Cookie (Instance (CookieInstance c)) = True"
| "instanceof_Cookie v = False"

text \<open>
  The properties of \<open>Object.prototype\<close>: the accessor \<open>__proto__\<close>, whose getter returns
  the prototype of the object that is read, the data property \<open>constructor\<close>, and the
  methods.
\<close>

definition ObjectPrototype_methods :: "jsstring list" where
  "ObjectPrototype_methods =
     [js ''__defineGetter__'', js ''__defineSetter__'', js ''__lookupGetter__'',
      js ''__lookupSetter__'', js ''hasOwnProperty'', js ''isPrototypeOf'',
      js ''propertyIsEnumerable'', js ''toLocaleString'', js ''toString'', js ''valueOf'']"

definition ObjectPrototype_get :: "jsstring \<Rightarrow> jsvalue \<Rightarrow> jsvalue" where
  "ObjectPrototype_get key receiverPrototype =
     (if key = js ''__proto__'' then receiverPrototype
      else if key = js ''constructor'' then Function (js ''Object'')
      else if key \<in> set ObjectPrototype_methods then Function (js ''Object.prototype.'' @ key)
      else Undefined)"

text \<open>
  The own properties of an instance of \<open>Cookie\<close> are its fields; the value of the enum at
  run time is its string form. \<open>Cookie.prototype\<close> holds \<open>constructor\<close> and the methods of
  the class, the private one included.
\<close>

definition Cookie_own :: "Cookie \<Rightarrow> jsstring \<rightharpoonup> jsvalue" where
  "Cookie_own c key =
     (if key = js ''_name'' then Some (String (c_name c))
      else if key = js ''_value'' then Some (String (c_value c))
      else if key = js ''_expiresAt'' then Some (Number (c_expiresAt c))
      else if key = js ''_path'' then Some (String (c_path c))
      else if key = js ''_domain'' then Some (String (c_domain c))
      else if key = js ''_secure'' then Some (Boolean (c_secure c))
      else if key = js ''_httpOnly'' then Some (Boolean (c_httpOnly c))
      else if key = js ''_raw'' then Some (Boolean (c_raw c))
      else if key = js ''_sameSite'' then Some (String (SameSite_valueOf (c_sameSite c)))
      else None)"

definition CookiePrototype_methods :: "jsstring list" where
  "CookiePrototype_methods =
     [js ''setValue'', js ''setExpire'', js ''expire'', js ''forever'', js ''setPath'',
      js ''setDomain'', js ''setSecure'', js ''setHttpOnly'', js ''setRaw'', js ''setSameSite'',
      js ''getName'', js ''getValue'', js ''getExpiry'', js ''getMaxAge'', js ''hasExpired'',
      js ''getPath'', js ''getDomain'', js ''isSecure'', js ''isHttpOnly'', js ''isRaw'',
      js ''getSameSite'', js ''toString'', js ''rawIfNeededOf'']"

definition CookiePrototype_get :: "jsstring \<Rightarrow> jsvalue \<Rightarrow> jsvalue" where
  "CookiePrototype_get key receiverPrototype =
     (if key = js ''constructor'' then Function (js ''Cookie'')
      else if key \<in> set CookiePrototype_methods then Function (js ''Cookie.prototype.'' @ key)
      else ObjectPrototype_get key receiverPrototype)"

text \<open>Reading a key on an object that is the prototype of the object read.\<close>

fun ICookie_get :: "ICookie \<Rightarrow> jsstring \<Rightarrow> jsvalue \<Rightarrow> jsvalue" where
  "ICookie_get (CookieInstance c) key receiverPrototype =
     (case Cookie_own c key of
        Some v \<Rightarrow> v
      | None \<Rightarrow> CookiePrototype_get key receiverPrototype)"
| "ICookie_get (OtherICookie n ps) key receiverPrototype =
     (case map_of ps key of
        Some v \<Rightarrow> v
      | None \<Rightarrow> ObjectPrototype_get key receiverPrototype)"

fun ICookie_getName :: "ICookie \<Rightarrow> jsstring" where
  "ICookie_getName (CookieInstance c) = getName c"
| "ICookie_getName (OtherICookie n ps) = n"

text \<open>
  Whether the chain of the prototype holds a data property \<open>__proto__\<close>, which hides the
  accessor of \<open>Object.prototype\<close>: a cookie has none, another object may.
\<close>

fun hides_proto_accessor :: "ICookie option \<Rightarrow> bool" where
  "hides_proto_accessor None = False"
| "hides_proto_accessor (Some (CookieInstance c)) = False"
| "hides_proto_accessor (Some (OtherICookie n ps)) = (map_of ps (js ''__proto__'') \<noteq> None)"

text \<open>
  The dictionary object: its own properties, and its prototype, which is
  \<open>Object.prototype\<close> (\<open>None\<close>) until an assignment to \<open>__proto__\<close> replaces it.
\<close>

record JSObject =
  own :: "jsstring \<rightharpoonup> ICookie"
  proto :: "ICookie option"

text \<open>The literal \<open>{}\<close>.\<close>

abbreviation empty_object :: JSObject where
  "empty_object \<equiv> \<lparr>own = Map.empty, proto = None\<rparr>"

definition prototypeOf :: "JSObject \<Rightarrow> jsvalue" where
  "prototypeOf ob = (case proto ob of None \<Rightarrow> ObjectPrototype | Some p \<Rightarrow> Instance p)"

text \<open>\<open>ob[key]\<close>: the own property, or else what the chain of prototypes gives.\<close>

definition object_get :: "JSObject \<Rightarrow> jsstring \<Rightarrow> jsvalue" where
  "object_get ob key =
     (case own ob key of
        Some v \<Rightarrow> Instance v
      | None \<Rightarrow>
          (case proto ob of
             None \<Rightarrow> ObjectPrototype_get key (prototypeOf ob)
           | Some p \<Rightarrow> ICookie_get p key (prototypeOf ob)))"

text \<open>
  \<open>ob[key] = v\<close> for an object \<open>v\<close>: an own property is overwritten; the key
  \<open>__proto__\<close>, when the accessor of \<open>Object.prototype\<close> is reached, makes \<open>v\<close> the
  prototype and creates no property; any other key becomes an own property, the data
  properties on the chain being writable.
\<close>

definition object_set :: "JSObject \<Rightarrow> jsstring \<Rightarrow> ICookie \<Rightarrow> JSObject" where
  "object_set ob key v =
     (if own ob key = None \<and> key = js ''__proto__'' \<and> \<not> hides_proto_accessor (proto ob)
      then ob\<lparr>proto := Some v\<rparr>
      else ob\<lparr>own := (own ob)(key \<mapsto> v)\<rparr>)"

text \<open>\<open>delete ob[key]\<close>: the own property goes, the chain of prototypes stays.\<close>

definition object_delete :: "JSObject \<Rightarrow> jsstring \<Rightarrow> JSObject" where
  "object_delete ob key = ob\<lparr>own := (own ob)(key := None)\<rparr>"

section \<open>The class \<open>CookiesManager\<close>\<close>

record CookiesManager =
  m_incoming :: JSObject
  m_queue :: JSObject

definition parseCookie :: "jsstring \<Rightarrow> error + Cookie option" where
  "parseCookie cookie =
     (let keyValue = split 0x3D cookie;
          first = shift keyValue
      in case decodeURIComponent (trimLeft (or_empty (fst first))) of
           Inl e \<Rightarrow> Inl e
         | Inr name \<Rightarrow>
             if name = [] then Inr None
             else (let second = shift (snd first) in
                     case decodeURIComponent (or_empty (fst second)) of
                       Inl e \<Rightarrow> Inl e
                     | Inr v \<Rightarrow> Inr (Some (new_Cookie2 name v))))"

text \<open>
  The \<open>forEach\<close> of \<open>parseIncomingCookies\<close>: an exception of \<open>parseCookie\<close> ends the loop
  and keeps what was stored so far.
\<close>

fun forEach_parse :: "jsstring list \<Rightarrow> CookiesManager \<Rightarrow> (error + unit) \<times> CookiesManager" where
  "forEach_parse [] m = (Inr (), m)"
| "forEach_parse (cookieString # rest) m =
     (case parseCookie cookieString of
        Inl e \<Rightarrow> (Inl e, m)
      | Inr None \<Rightarrow> forEach_parse rest m
      | Inr (Some cookie) \<Rightarrow>
          forEach_parse rest
            (m\<lparr>m_incoming := object_set (m_incoming m) (getName cookie) (CookieInstance cookie)\<rparr>))"

definition parseIncomingCookies ::
  "jsstring \<Rightarrow> CookiesManager \<Rightarrow> (error + unit) \<times> CookiesManager" where
  "parseIncomingCookies cookieHeader m = forEach_parse (split 0x3B cookieHeader) m"

text \<open>
  The constructor: both objects are \<open>{}\<close>, then the header \<open>request.headers.cookie || ''\<close>
  is parsed. An exception leaves no manager.
\<close>

definition new_CookiesManager :: "jsstring option \<Rightarrow> error + CookiesManager" where
  "new_CookiesManager header =
     (case parseIncomingCookies (or_empty header)
             \<lparr>m_incoming = empty_object, m_queue = empty_object\<rparr> of
        (Inl e, m) \<Rightarrow> Inl e
      | (Inr u, m) \<Rightarrow> Inr m)"

definition hasQueued :: "jsstring \<Rightarrow> CookiesManager \<Rightarrow> bool" where
  "hasQueued name m = instanceof_Cookie (object_get (m_queue m) name)"

definition queue :: "ICookie \<Rightarrow> CookiesManager \<Rightarrow> CookiesManager" where
  "queue cookie m = m\<lparr>m_queue := object_set (m_queue m) (ICookie_getName cookie) cookie\<rparr>"

definition unqueue :: "jsstring \<Rightarrow> CookiesManager \<Rightarrow> CookiesManager" where
  "unqueue name m = m\<lparr>m_queue := object_delete (m_queue m) name\<rparr>"

definition incoming :: "jsstring \<Rightarrow> CookiesManager \<Rightarrow> jsvalue" where
  "incoming name m =
     (let v = object_get (m_incoming m) name in if truthy v then v else Null)"

definition queued :: "jsstring \<Rightarrow> CookiesManager \<Rightarrow> jsvalue" where
  "queued name m =
     (let v = object_get (m_queue m) name in if truthy v then v else Null)"

definition incomingCookies :: "CookiesManager \<Rightarrow> JSObject" where
  "incomingCookies m = m_incoming m"

definition queuedCookies :: "CookiesManager \<Rightarrow> JSObject" where
  "queuedCookies m = m_queue m"

text \<open>\<open>value ?? defaultValue\<close> gives the default for \<open>null\<close> and for \<open>undefined\<close>.\<close>

definition get :: "jsstring \<Rightarrow> jsvalue \<Rightarrow> CookiesManager \<Rightarrow> jsvalue" where
  "get key defaultValue m =
     (let v = queued key m;
          v' = (if v = Null then incoming key m else v)
      in if v' = Null \<or> v' = Undefined then defaultValue else v')"

text \<open>A call of a public method of the manager, and the manager it leaves behind.\<close>

datatype call =
    ParseIncomingCookies jsstring
  | ParseCookie jsstring
  | HasQueued jsstring
  | Queue ICookie
  | Unqueue jsstring
  | Incoming jsstring
  | Queued jsstring
  | IncomingCookies
  | QueuedCookies
  | Get jsstring jsvalue

fun after_call :: "call \<Rightarrow> CookiesManager \<Rightarrow> CookiesManager" where
  "after_call (ParseIncomingCookies h) m = snd (parseIncomingCookies h m)"
| "after_call (Queue c) m = queue c m"
| "after_call (Unqueue n) m = unqueue n m"
| "after_call _ m = m"

section \<open>The specification's reading of a cookie fragment\<close>

text \<open>
  The specification words \<open>parseCookie\<close> as a cut at the first \<open>=\<close>: the name part is the
  text before it, the value part is everything after it. This definition follows those
  words, for comparison with \<open>parseCookie\<close>.
\<close>

definition parseCookie_first_eq :: "jsstring \<Rightarrow> error + Cookie option" where
  "parseCookie_first_eq fragment =
     (let namePart = takeWhile (\<lambda>c. c \<noteq> 0x3D) fragment;
          valuePart = drop 1 (dropWhile (\<lambda>c. c \<noteq> 0x3D) fragment)
      in case decodeURIComponent (trimLeft namePart) of
           Inl e \<Rightarrow> Inl e
         | Inr name \<Rightarrow>
             if name = [] then Inr None
             else (case decodeURIComponent valuePart of
                     Inl e \<Rightarrow> Inl e
                   | Inr v \<Rightarrow> Inr (Some (new_Cookie2 name v))))"

text \<open>The number of places of a text at which a pattern occurs.\<close>

fun starts_with :: "jsstring \<Rightarrow> jsstring \<Rightarrow> bool" where
  "starts_with [] t = True"
| "starts_with (p # ps) [] = False"
| "starts_with (p # ps) (x # xs) = (p = x \<and> starts_with ps xs)"

fun occurrences :: "jsstring \<Rightarrow> jsstring \<Rightarrow> nat" where
  "occurrences pat [] = (if pat = [] then 1 else 0)"
| "occurrences pat (x # xs) = (if starts_with pat (x # xs) then 1 else 0) + occurrences pat xs"

text \<open>A text that is empty or begins with a semicolon, as every attribute of a cookie does.\<close>

definition segment :: "jsstring \<Rightarrow> bool" where
  "segment x = (x = [] \<or> hd x = 0x3B)"

section \<open>An environment to evaluate in\<close>

text \<open>
  One possible behaviour of the collaborators, for evaluating the methods on concrete
  cookies: a clock that stands at 1700000000000 ms (14 November 2023, 22:13:20), and a
  date library working in UTC on the proleptic Gregorian calendar.
\<close>

text \<open>The decimal digits of a natural number.\<close>

fun decimal :: "nat \<Rightarrow> jsstring" where
  "decimal n =
     (if n < 10 then [of_nat (0x30 + n)]
      else decimal (n div 10) @ [of_nat (0x30 + n mod 10)])"

text \<open>Year, month and day of a day number counted from 1 January 1970, and back.\<close>

definition civil_from_days :: "int \<Rightarrow> int \<times> int \<times> int" where
  "civil_from_days days =
     (let z = days + 719468;
          era = z div 146097;
          doe = z mod 146097;
          yoe = (doe - doe div 1460 + doe div 36524 - doe div 146096) div 365;
          doy = doe - (365 * yoe + yoe div 4 - yoe div 100);
          mp = (5 * doy + 2) div 153;
          d = doy - (153 * mp + 2) div 5 + 1;
          m = (if mp < 10 then mp + 3 else mp - 9);
          y = yoe + era * 400
      in (if m \<le> 2 then y + 1 else y, m, d))"

definition days_from_civil :: "int \<Rightarrow> int \<Rightarrow> int \<Rightarrow> int" where
  "days_from_civil y m d =
     (let y' = (if m \<le> 2 then y - 1 else y);
          era = y' div 400;
          yoe = y' mod 400;
          doy = (153 * (if m > 2 then m - 3 else m + 9) + 2) div 5 + d - 1;
          doe = yoe * 365 + yoe div 4 - yoe div 100 + doy
      in era * 146097 + doe - 719468)"

definition days_in_month :: "int \<Rightarrow> int \<Rightarrow> int" where
  "days_in_month y m =
     (if m = 12 then 31 else days_from_civil y (m + 1) 1 - days_from_civil y m 1)"

definition digits2 :: "int \<Rightarrow> jsstring" where
  "digits2 n = [of_nat (0x30 + nat (n div 10 mod 10)), of_nat (0x30 + nat (n mod 10))]"

definition digits4 :: "int \<Rightarrow> jsstring" where
  "digits4 n = digits2 (n div 100) @ digits2 n"

definition day_names :: "jsstring list" where
  "day_names =
     [js ''Sun'', js ''Mon'', js ''Tue'', js ''Wed'', js ''Thu'', js ''Fri'', js ''Sat'']"

definition month_names :: "jsstring list" where
  "month_names =
     [js ''Jan'', js ''Feb'', js ''Mar'', js ''Apr'', js ''May'', js ''Jun'',
      js ''Jul'', js ''Aug'', js ''Sep'', js ''Oct'', js ''Nov'', js ''Dec'']"

text \<open>The date of HTTP (RFC 7231) of a timestamp in milliseconds, for the years 0 to 9999.\<close>

definition http_date :: "int \<Rightarrow> jsstring" where
  "http_date ms =
     (let days = ms div 86400000;
          secs = (ms mod 86400000) div 1000;
          ymd = civil_from_days days
      in day_names ! nat ((days + 4) mod 7) @ js '', '' @ digits2 (snd (snd ymd)) @ js '' ''
         @ month_names ! nat (fst (snd ymd) - 1) @ js '' '' @ digits4 (fst ymd) @ js '' ''
         @ digits2 (secs div 3600) @ js '':'' @ digits2 (secs div 60 mod 60) @ js '':''
         @ digits2 (secs mod 60) @ js '' GMT'')"

text \<open>
  The same day and time of day \<open>k\<close> years later (earlier when \<open>k\<close> is negative); the 29th
  of February falls back on the 28th.
\<close>

definition shift_years :: "int \<Rightarrow> int \<Rightarrow> int" where
  "shift_years k ms =
     (let ymd = civil_from_days (ms div 86400000);
          y = fst ymd + k;
          m = fst (snd ymd);
          d = min (snd (snd ymd)) (days_in_month y m)
      in days_from_civil y m d * 86400000 + ms mod 86400000)"

definition example_env :: Env where
  "example_env =
     \<lparr>Date_now = Num 1700000000000,
      dayjs_isValid = (\<lambda>t. case t of Num n \<Rightarrow> \<bar>n\<bar> \<le> 8640000000000000 | _ \<Rightarrow> False),
      dayjs_subtract_year =
        (\<lambda>k t. case t of Num n \<Rightarrow> Num (shift_years (- int k) n) | _ \<Rightarrow> NaN),
      dayjs_add_year =
        (\<lambda>k t. case t of Num n \<Rightarrow> Num (shift_years (int k) n) | _ \<Rightarrow> NaN),
      dayjs_diff_second =
        (\<lambda>a b. case a of
                  Num x \<Rightarrow> (case b of
                              Num y \<Rightarrow> Num (sgn (x - y) * (\<bar>x - y\<bar> div 1000))
                            | _ \<Rightarrow> NaN)
                | _ \<Rightarrow> NaN),
      Redate_responseFormat =
        (\<lambda>t. case t of Num n \<Rightarrow> http_date n | _ \<Rightarrow> js ''Invalid Date''),
      Number_toString =
        (\<lambda>t. case t of
                Num n \<Rightarrow> (if n < 0 then js ''-'' @ decimal (nat (- n)) else decimal (nat n))
              | NaN \<Rightarrow> js ''NaN''
              | PosInfinity \<Rightarrow> js ''Infinity''
              | NegInfinity \<Rightarrow> js ''-Infinity'')\<rparr>"

section \<open>Code units, hexadecimal digits and octets\<close>

lemma unat_of_nat16: "n < 65536 \<Longrightarrow> unat (of_nat n :: 16 word) = n"
  by (simp add: unat_of_nat)

lemma unat_lt_65536: "unat (c :: 16 word) < 65536"
  using unsigned_less [of c, where 'a = nat] by simp

lemma unat_hexDigit:
  "d < 16 \<Longrightarrow> unat (hexDigit d) = (if d < 10 then 0x30 + d else 0x37 + d)"
  by (simp add: hexDigit_def unat_of_nat16 del: of_nat_add of_nat_numeral)

lemma hexValue_hexDigit: "d < 16 \<Longrightarrow> hexValue (hexDigit d) = Some d"
  by (simp add: hexValue_def unat_hexDigit Let_def)

lemma ParseHexOctet_hexDigit:
  assumes "b < 256"
  shows "ParseHexOctet [hexDigit (b div 16), hexDigit (b mod 16)] = Some b"
proof -
  have "b div 16 < 16" using assms by simp
  moreover have "b mod 16 < 16" by simp
  ultimately show ?thesis by (simp add: hexValue_hexDigit)
qed

lemma hexDigit_unescaped: "d < 16 \<Longrightarrow> unescapedSet (hexDigit d)"
  by (simp add: unescapedSet_def unat_hexDigit Let_def)

lemma pctOctet_chars:
  assumes "b < 256" and c: "c \<in> set (pctOctet b)"
  shows "unescapedSet c \<or> c = 0x25"
proof -
  from assms have "b div 16 < 16" "b mod 16 < 16" by simp_all
  then have "unescapedSet (hexDigit (b div 16))" "unescapedSet (hexDigit (b mod 16))"
    by (simp_all only: hexDigit_unescaped)
  then show ?thesis using c by (auto simp add: pctOctet_def)
qed

lemma unescaped_not_pct: "unescapedSet C \<Longrightarrow> C \<noteq> 0x25"
  by (auto simp add: unescapedSet_def Let_def)

lemma unescaped_not_special:
  "unescapedSet c \<or> c = 0x25 \<Longrightarrow> c \<noteq> 0x3D \<and> c \<noteq> 0x3B \<and> \<not> isWhiteSpace c"
  by (auto simp add: unescapedSet_def isWhiteSpace_def Let_def)

lemma prepend_Inr_iff: "(prepend s x = Inr e) = (\<exists>r. x = Inr r \<and> e = s @ r)"
  by (cases x) auto

lemma prepend_Inl_iff: "(prepend s x = Inl e) = (x = Inl e)"
  by (cases x) auto

section \<open>The octets of a code point\<close>

lemma mod64_lt128: "(x::nat) mod 0x40 < 0x80"
proof -
  have "x mod 0x40 < 0x40" by simp
  then show ?thesis by linarith
qed

lemma three_digits:
  "(cp::nat) div 0x1000 * 0x1000 + (cp div 0x40) mod 0x40 * 0x40 + cp mod 0x40 = cp"
proof -
  have e3: "cp div 0x1000 = (cp div 0x40) div 0x40"
    by (simp add: div_mult2_eq [symmetric])
  have e2: "cp div 0x40 = (cp div 0x40) div 0x40 * 0x40 + (cp div 0x40) mod 0x40"
    by simp
  have e1: "cp = cp div 0x40 * 0x40 + cp mod 0x40"
    by simp
  define A where "A = cp div 0x1000"
  define Q where "Q = cp div 0x40"
  define M where "M = Q mod 0x40"
  define R where "R = cp mod 0x40"
  have "Q = A * 0x40 + M" "cp = Q * 0x40 + R"
    using e1 e2 e3 by (simp_all add: A_def Q_def M_def R_def)
  then have "A * 0x1000 + M * 0x40 + R = cp" by simp
  then show ?thesis by (simp add: A_def Q_def M_def R_def)
qed

lemma four_digits:
  "(cp::nat) div 0x40000 * 0x40000 + (cp div 0x1000) mod 0x40 * 0x1000
     + (cp div 0x40) mod 0x40 * 0x40 + cp mod 0x40 = cp"
proof -
  define P where "P = cp div 0x1000"
  define B where "B = cp div 0x40000"
  define N where "N = P mod 0x40"
  define T where "T = (cp div 0x40) mod 0x40 * 0x40 + cp mod 0x40"
  have "P div 0x40 = B"
    by (simp add: P_def B_def div_mult2_eq [symmetric])
  moreover have "P = P div 0x40 * 0x40 + P mod 0x40"
    by simp
  ultimately have "P = B * 0x40 + N"
    by (simp add: N_def)
  moreover have "P * 0x1000 + T = cp"
    using three_digits [of cp] by (simp add: P_def T_def)
  ultimately have "B * 0x40000 + N * 0x1000 + T = cp"
    by simp
  then show ?thesis by (simp add: P_def B_def N_def T_def)
qed

lemma second_octet_E0:
  assumes "0x800 \<le> (cp::nat)" "cp < 0x1000"
  shows "0x20 \<le> (cp div 0x40) mod 0x40"
proof -
  have "cp div 0x40 < 0x40" using assms by simp
  then have "(cp div 0x40) mod 0x40 = cp div 0x40" by simp
  moreover have "0x20 \<le> cp div 0x40" using assms by simp
  ultimately show ?thesis by simp
qed

lemma second_octet_ED:
  assumes "0xD000 \<le> (cp::nat)" "cp < 0xD800"
  shows "(cp div 0x40) mod 0x40 < 0x20"
proof -
  define Q where "Q = cp div 0x40"
  have Q: "0x340 \<le> Q" "Q < 0x360" using assms by (simp_all add: Q_def)
  then have "Q div 0x40 = 0xD" by simp
  moreover have "Q = Q div 0x40 * 0x40 + Q mod 0x40" by simp
  ultimately have "Q = 0xD * 0x40 + Q mod 0x40" by simp
  then have "Q mod 0x40 < 0x20" using Q(2) by simp
  then show ?thesis by (simp add: Q_def)
qed

lemma utf8_encode_2:
  assumes "0x80 \<le> cp" "cp < 0x800"
  shows "utf8_encode cp = [0xC0 + cp div 0x40, 0x80 + cp mod 0x40]"
    and "leading_ones (0xC0 + cp div 0x40) = 2"
    and "valid_utf8 [0xC0 + cp div 0x40, 0x80 + cp mod 0x40]"
    and "utf8_value [0xC0 + cp div 0x40, 0x80 + cp mod 0x40] = cp"
proof -
  have d: "2 \<le> cp div 0x40" "cp div 0x40 < 0x20" "cp mod 0x40 < 0x40"
    using assms by simp_all
  show "utf8_encode cp = [0xC0 + cp div 0x40, 0x80 + cp mod 0x40]"
    using assms by (simp add: utf8_encode_def)
  show "leading_ones (0xC0 + cp div 0x40) = 2"
    using d by (simp add: leading_ones_def)
  show "valid_utf8 [0xC0 + cp div 0x40, 0x80 + cp mod 0x40]"
    using d by (simp add: isContinuation_def)
  show "utf8_value [0xC0 + cp div 0x40, 0x80 + cp mod 0x40] = cp"
    by simp
qed

lemma utf8_encode_3:
  assumes "0x800 \<le> cp" "cp < 0x10000" "\<not> (0xD800 \<le> cp \<and> cp \<le> 0xDFFF)"
  shows "utf8_encode cp =
           [0xE0 + cp div 0x1000, 0x80 + (cp div 0x40) mod 0x40, 0x80 + cp mod 0x40]"
    and "leading_ones (0xE0 + cp div 0x1000) = 3"
    and "valid_utf8 [0xE0 + cp div 0x1000, 0x80 + (cp div 0x40) mod 0x40, 0x80 + cp mod 0x40]"
    and "utf8_value [0xE0 + cp div 0x1000, 0x80 + (cp div 0x40) mod 0x40, 0x80 + cp mod 0x40]
           = cp"
proof -
  have d: "cp div 0x1000 < 0x10" "(cp div 0x40) mod 0x40 < 0x40" "cp mod 0x40 < 0x40"
    using assms by simp_all
  show "utf8_encode cp =
          [0xE0 + cp div 0x1000, 0x80 + (cp div 0x40) mod 0x40, 0x80 + cp mod 0x40]"
    using assms by (simp add: utf8_encode_def)
  show "leading_ones (0xE0 + cp div 0x1000) = 3"
    using d by (simp add: leading_ones_def)
  have lo: "cp div 0x1000 = 0 \<Longrightarrow> 0x20 \<le> (cp div 0x40) mod 0x40"
  proof -
    assume "cp div 0x1000 = 0"
    then have "cp < 0x1000" by simp
    with assms(1) show ?thesis by (rule second_octet_E0)
  qed
  have hi: "cp div 0x1000 = 0xD \<Longrightarrow> (cp div 0x40) mod 0x40 < 0x20"
  proof -
    assume e: "cp div 0x1000 = 0xD"
    have "cp = cp div 0x1000 * 0x1000 + cp mod 0x1000" by simp
    moreover have "cp mod 0x1000 < 0x1000" by simp
    ultimately have r: "0xD000 \<le> cp" "cp < 0xE000" using e by simp_all
    note r(1)
    moreover from r assms(3) have "cp < 0xD800" by simp
    ultimately show ?thesis by (rule second_octet_ED)
  qed
  show "valid_utf8 [0xE0 + cp div 0x1000, 0x80 + (cp div 0x40) mod 0x40, 0x80 + cp mod 0x40]"
    using d lo hi by (auto simp add: isContinuation_def)
  show "utf8_value [0xE0 + cp div 0x1000, 0x80 + (cp div 0x40) mod 0x40, 0x80 + cp mod 0x40]
          = cp"
    using three_digits [of cp] by simp
qed

lemma utf8_encode_4:
  assumes "0x10000 \<le> cp" "cp < 0x110000"
  shows "utf8_encode cp =
           [0xF0 + cp div 0x40000, 0x80 + (cp div 0x1000) mod 0x40,
            0x80 + (cp div 0x40) mod 0x40, 0x80 + cp mod 0x40]"
    and "leading_ones (0xF0 + cp div 0x40000) = 4"
    and "valid_utf8 [0xF0 + cp div 0x40000, 0x80 + (cp div 0x1000) mod 0x40,
            0x80 + (cp div 0x40) mod 0x40, 0x80 + cp mod 0x40]"
    and "utf8_value [0xF0 + cp div 0x40000, 0x80 + (cp div 0x1000) mod 0x40,
            0x80 + (cp div 0x40) mod 0x40, 0x80 + cp mod 0x40] = cp"
proof -
  define P where "P = cp div 0x1000"
  have P: "0x10 \<le> P" "P < 0x110"
    using assms by (simp_all add: P_def)
  have PB: "P div 0x40 = cp div 0x40000"
    by (simp add: P_def div_mult2_eq [symmetric])
  have d: "cp div 0x40000 < 5" "P mod 0x40 < 0x40" "(cp div 0x40) mod 0x40 < 0x40"
    "cp mod 0x40 < 0x40"
    using assms by simp_all
  show "utf8_encode cp =
           [0xF0 + cp div 0x40000, 0x80 + (cp div 0x1000) mod 0x40,
            0x80 + (cp div 0x40) mod 0x40, 0x80 + cp mod 0x40]"
    using assms by (simp add: utf8_encode_def)
  show "leading_ones (0xF0 + cp div 0x40000) = 4"
    using d by (simp add: leading_ones_def)
  have digits: "P = P div 0x40 * 0x40 + P mod 0x40" by simp
  have lo: "cp div 0x40000 = 0 \<Longrightarrow> 0x10 \<le> P mod 0x40"
  proof -
    assume "cp div 0x40000 = 0"
    then have "P div 0x40 = 0" using PB by simp
    then have "P mod 0x40 = P" by simp
    then show ?thesis using P by simp
  qed
  have hi: "cp div 0x40000 = 4 \<Longrightarrow> P mod 0x40 < 0x10"
  proof -
    assume "cp div 0x40000 = 4"
    then have "P div 0x40 = 4" using PB by simp
    then have "P = 4 * 0x40 + P mod 0x40" using digits by simp
    then show ?thesis using P by simp
  qed
  show "valid_utf8 [0xF0 + cp div 0x40000, 0x80 + (cp div 0x1000) mod 0x40,
            0x80 + (cp div 0x40) mod 0x40, 0x80 + cp mod 0x40]"
    using d lo hi by (auto simp add: isContinuation_def P_def)
  show "utf8_value [0xF0 + cp div 0x40000, 0x80 + (cp div 0x1000) mod 0x40,
            0x80 + (cp div 0x40) mod 0x40, 0x80 + cp mod 0x40] = cp"
    using four_digits [of cp] by simp
qed

lemma utf8_encode_octets:
  assumes "cp < 0x110000"
  shows "\<forall>b \<in> set (utf8_encode cp). b < 256"
proof -
  have "cp div 0x40 < 0x20" if "cp < 0x800" using that by simp
  moreover have "cp div 0x1000 < 0x10" if "cp < 0x10000" using that by simp
  moreover have "cp div 0x40000 < 5" using assms by simp
  ultimately show ?thesis
    by (auto simp add: utf8_encode_def mod64_lt128)
qed

section \<open>Decoding what \<open>encodeURIComponent\<close> wrote\<close>

lemma decode_escape:
  "decodeURIComponent (0x25 # h # l # r) =
     (case ParseHexOctet [h, l] of
        None \<Rightarrow> Inl URIError
      | Some B \<Rightarrow>
          (let n = leading_ones B in
             if n = 0 then prepend [of_nat B] (decodeURIComponent r)
             else if n = 1 \<or> n > 4 then Inl URIError
             else (case continuationBytes (n - 1) r of
                     None \<Rightarrow> Inl URIError
                   | Some octets \<Rightarrow>
                       if \<not> valid_utf8 (B # octets) then Inl URIError
                       else prepend (UTF16EncodeCodePoint (utf8_value (B # octets)))
                              (decodeURIComponent (drop (3 * (n - 1)) r)))))"
  by (simp add: Let_def split: option.splits)

lemma continuationBytes_pctOctets:
  "\<forall>b \<in> set bs. b < 256 \<Longrightarrow>
   continuationBytes (length bs) (concat (map pctOctet bs) @ r) = Some bs"
proof (induction bs)
  case Nil
  then show ?case by simp
next
  case (Cons b bs)
  then show ?case
    by (simp add: pctOctet_def ParseHexOctet_hexDigit del: ParseHexOctet.simps)
qed

lemma drop_three: "drop (3 + n) (a # b # c # xs) = drop n xs"
  by (simp add: numeral_3_eq_3)

lemma drop_pctOctets: "drop (3 * length bs) (concat (map pctOctet bs) @ r) = r"
  by (induction bs) (simp_all add: pctOctet_def drop_three)

lemma decode_ascii:
  assumes "B < 0x80"
  shows "decodeURIComponent (pctOctet B @ r) = prepend [of_nat B] (decodeURIComponent r)"
proof -
  have "ParseHexOctet [hexDigit (B div 16), hexDigit (B mod 16)] = Some B"
    using assms by (intro ParseHexOctet_hexDigit) simp
  moreover have "leading_ones B = 0"
    using assms by (simp add: leading_ones_def)
  ultimately show ?thesis
    by (simp add: pctOctet_def decode_escape del: decodeURIComponent.simps ParseHexOctet.simps)
qed

lemma decode_sequence:
  assumes B: "B < 256" and rest: "\<forall>b \<in> set rest. b < 256"
    and n: "leading_ones B = Suc (length rest)" and len: "rest \<noteq> []" "length rest \<le> 3"
    and valid: "valid_utf8 (B # rest)"
  shows "decodeURIComponent (concat (map pctOctet (B # rest)) @ r) =
           prepend (UTF16EncodeCodePoint (utf8_value (B # rest))) (decodeURIComponent r)"
proof -
  have hex: "ParseHexOctet [hexDigit (B div 16), hexDigit (B mod 16)] = Some B"
    using B by (rule ParseHexOctet_hexDigit)
  have cont: "continuationBytes (length rest) (concat (map pctOctet rest) @ r) = Some rest"
    using rest by (rule continuationBytes_pctOctets)
  have dr: "drop (3 * length rest) (concat (map pctOctet rest) @ r) = r"
    by (rule drop_pctOctets)
  have n': "leading_ones B \<noteq> 0" "leading_ones B \<noteq> 1" "\<not> leading_ones B > 4"
    "leading_ones B - 1 = length rest"
    using n len by (cases rest; simp)+
  have "concat (map pctOctet (B # rest)) @ r =
          0x25 # hexDigit (B div 16) # hexDigit (B mod 16) # (concat (map pctOctet rest) @ r)"
    by (simp add: pctOctet_def)
  then show ?thesis
    using hex cont dr n' valid
    by (simp add: decode_escape Let_def del: decodeURIComponent.simps ParseHexOctet.simps
          valid_utf8.simps utf8_value.simps)
qed

lemma decode_utf8_encode:
  assumes "0x80 \<le> cp" "cp < 0x110000" "\<not> (0xD800 \<le> cp \<and> cp \<le> 0xDFFF)"
  shows "decodeURIComponent (concat (map pctOctet (utf8_encode cp)) @ r) =
           prepend (UTF16EncodeCodePoint cp) (decodeURIComponent r)"
proof -
  consider "cp < 0x800" | "0x800 \<le> cp" "cp < 0x10000" | "0x10000 \<le> cp"
    by linarith
  then show ?thesis
  proof cases
    case 1
    note u = utf8_encode_2 [OF assms(1) 1]
    have "cp div 0x40 < 0x20" using 1 by simp
    then have "0xC0 + cp div 0x40 < 256" by simp
    then show ?thesis
      using decode_sequence [of "0xC0 + cp div 0x40" "[0x80 + cp mod 0x40]" r] u
      by (simp add: mod64_lt128 del: valid_utf8.simps utf8_value.simps)
  next
    case 2
    note u = utf8_encode_3 [OF 2 assms(3)]
    have "cp div 0x1000 < 0x10" using 2 by simp
    then have "0xE0 + cp div 0x1000 < 256" by simp
    then show ?thesis
      using decode_sequence [of "0xE0 + cp div 0x1000"
          "[0x80 + (cp div 0x40) mod 0x40, 0x80 + cp mod 0x40]" r] u
      by (simp add: mod64_lt128 del: valid_utf8.simps utf8_value.simps)
  next
    case 3
    note u = utf8_encode_4 [OF 3 assms(2)]
    have "cp div 0x40000 < 5" using assms(2) by simp
    then have "0xF0 + cp div 0x40000 < 256" by simp
    then show ?thesis
      using decode_sequence [of "0xF0 + cp div 0x40000"
          "[0x80 + (cp div 0x1000) mod 0x40, 0x80 + (cp div 0x40) mod 0x40,
            0x80 + cp mod 0x40]" r] u
      by (simp add: mod64_lt128 del: valid_utf8.simps utf8_value.simps)
  qed
qed

lemma CodePointAt_single:
  assumes "\<not> isLeadingSurrogate (unat C)" "\<not> isTrailingSurrogate (unat C)"
  shows "CodePointAt (C # cs) =
           \<lparr>CodePoint = unat C, CodeUnitCount = 1, IsUnpairedSurrogate = False\<rparr>"
    and "UTF16EncodeCodePoint (unat C) = [C]"
    and "unat C < 0x110000" and "\<not> (0xD800 \<le> unat C \<and> unat C \<le> 0xDFFF)"
proof -
  have lt: "unat C < 65536" by (rule unat_lt_65536)
  show "CodePointAt (C # cs) =
           \<lparr>CodePoint = unat C, CodeUnitCount = 1, IsUnpairedSurrogate = False\<rparr>"
    using assms by (simp add: Let_def)
  show "UTF16EncodeCodePoint (unat C) = [C]"
    using lt by (simp add: UTF16EncodeCodePoint_def)
  show "unat C < 0x110000" using lt by simp
  show "\<not> (0xD800 \<le> unat C \<and> unat C \<le> 0xDFFF)"
    using assms by (auto simp add: isLeadingSurrogate_def isTrailingSurrogate_def)
qed

lemma CodePointAt_pair:
  assumes "isLeadingSurrogate (unat C)" "isTrailingSurrogate (unat D)"
  defines "cp \<equiv> (unat C - 0xD800) * 0x400 + (unat D - 0xDC00) + 0x10000"
  shows "CodePointAt (C # D # cs) =
           \<lparr>CodePoint = cp, CodeUnitCount = 2, IsUnpairedSurrogate = False\<rparr>"
    and "UTF16EncodeCodePoint cp = [C, D]"
    and "0x10000 \<le> cp" and "cp < 0x110000"
proof -
  define a where "a = unat C - 0xD800"
  define b where "b = unat D - 0xDC00"
  have a: "a < 0x400" "unat C = a + 0xD800"
    using assms(1) by (auto simp add: a_def isLeadingSurrogate_def)
  have b: "b < 0x400" "unat D = b + 0xDC00"
    using assms(2) by (auto simp add: b_def isTrailingSurrogate_def)
  have cp: "cp = a * 0x400 + b + 0x10000"
    by (simp add: cp_def a_def b_def)
  have nt: "\<not> isTrailingSurrogate (unat C)"
    using assms(1) by (simp add: isLeadingSurrogate_def isTrailingSurrogate_def)
  show "CodePointAt (C # D # cs) =
           \<lparr>CodePoint = cp, CodeUnitCount = 2, IsUnpairedSurrogate = False\<rparr>"
    using assms(1,2) nt by (simp add: Let_def cp_def)
  show low: "0x10000 \<le> cp" by (simp add: cp)
  have "a * 0x400 \<le> 0x3FF * 0x400" using a(1) by simp
  then show "cp < 0x110000" using b(1) by (simp add: cp)
  have d: "(cp - 0x10000) div 0x400 = a" "(cp - 0x10000) mod 0x400 = b"
    using b(1) by (simp_all add: cp)
  have "(of_nat (unat C) :: 16 word) = C" "(of_nat (unat D) :: 16 word) = D"
    by simp_all
  then have "of_nat (a + 0xD800) = C" "of_nat (b + 0xDC00) = D"
    unfolding a(2) b(2) .
  then show "UTF16EncodeCodePoint cp = [C, D]"
    using d low by (simp add: UTF16EncodeCodePoint_def del: of_nat_add of_nat_numeral)
qed

lemma paired_cases:
  assumes "\<not> IsUnpairedSurrogate (CodePointAt (C # cs))"
  obtains "\<not> isLeadingSurrogate (unat C)" "\<not> isTrailingSurrogate (unat C)"
  | D ds where "cs = D # ds" "isLeadingSurrogate (unat C)" "isTrailingSurrogate (unat D)"
  using assms by (cases cs) (auto simp add: Let_def split: if_splits)

lemma CodePointAt_bound:
  assumes "\<not> IsUnpairedSurrogate (CodePointAt (C # cs))"
  shows "CodePoint (CodePointAt (C # cs)) < 0x110000"
  using assms
proof (cases rule: paired_cases)
  case 1
  then show ?thesis using CodePointAt_single(1,3) [of C] by simp
next
  case (2 D ds)
  then show ?thesis using CodePointAt_pair(1,4) [of C D] by simp
qed

lemma decode_encode_step:
  assumes ne: "\<not> unescapedSet C" and paired: "\<not> IsUnpairedSurrogate (CodePointAt (C # cs))"
  shows "decodeURIComponent
           (concat (map pctOctet (utf8_encode (CodePoint (CodePointAt (C # cs))))) @ r) =
         prepend (take (CodeUnitCount (CodePointAt (C # cs))) (C # cs)) (decodeURIComponent r)"
  using paired
proof (cases rule: paired_cases)
  case 1
  note f = CodePointAt_single [OF 1]
  show ?thesis
  proof (cases "unat C < 0x80")
    case True
    then have "utf8_encode (unat C) = [unat C]" by (simp add: utf8_encode_def)
    then show ?thesis
      using decode_ascii [OF True, of r] f(1)
      by (simp del: CodePointAt.simps decodeURIComponent.simps)
  next
    case False
    then have "0x80 \<le> unat C" by simp
    from decode_utf8_encode [OF this f(3) f(4), of r] show ?thesis
      using f(1,2) by (simp del: CodePointAt.simps decodeURIComponent.simps)
  qed
next
  case (2 D ds)
  note f = CodePointAt_pair [OF 2(2,3)]
  have "0x80 \<le> (unat C - 0xD800) * 0x400 + (unat D - 0xDC00) + 0x10000" by simp
  moreover have "\<not> (0xD800 \<le> (unat C - 0xD800) * 0x400 + (unat D - 0xDC00) + 0x10000
      \<and> (unat C - 0xD800) * 0x400 + (unat D - 0xDC00) + 0x10000 \<le> 0xDFFF)" by simp
  ultimately show ?thesis
    using decode_utf8_encode [of "(unat C - 0xD800) * 0x400 + (unat D - 0xDC00) + 0x10000" r]
      f 2(1)
    by (simp del: CodePointAt.simps decodeURIComponent.simps)
qed

lemma take_drop_CodeUnitCount:
  "take (CodeUnitCount (CodePointAt (C # cs))) (C # cs)
     @ drop (CodeUnitCount (CodePointAt (C # cs)) - 1) cs = C # cs"
proof -
  have "1 \<le> CodeUnitCount (CodePointAt (C # cs))"
    by (simp add: Let_def)
  then obtain k where k: "CodeUnitCount (CodePointAt (C # cs)) = Suc k"
    by (cases "CodeUnitCount (CodePointAt (C # cs))") simp_all
  show ?thesis unfolding k by simp
qed

text \<open>An escaped code unit of \<open>encodeURIComponent\<close>: the result, when there is one.\<close>

lemma encode_escaped:
  assumes "\<not> unescapedSet C" and "encodeURIComponent (C # cs) = Inr e"
  shows "\<not> IsUnpairedSurrogate (CodePointAt (C # cs))"
    and "\<exists>r. encodeURIComponent (drop (CodeUnitCount (CodePointAt (C # cs)) - 1) cs) = Inr r
           \<and> e = concat (map pctOctet (utf8_encode (CodePoint (CodePointAt (C # cs))))) @ r"
proof -
  show p: "\<not> IsUnpairedSurrogate (CodePointAt (C # cs))"
    using assms by (auto simp add: Let_def simp del: CodePointAt.simps split: if_splits)
  show "\<exists>r. encodeURIComponent (drop (CodeUnitCount (CodePointAt (C # cs)) - 1) cs) = Inr r
           \<and> e = concat (map pctOctet (utf8_encode (CodePoint (CodePointAt (C # cs))))) @ r"
    using assms p by (auto simp add: Let_def prepend_Inr_iff simp del: CodePointAt.simps)
qed

lemma decode_encode:
  "encodeURIComponent s = Inr e \<Longrightarrow> decodeURIComponent e = Inr s"
proof (induction s arbitrary: e rule: encodeURIComponent.induct)
  case 1
  then show ?case by simp
next
  case (2 C cs)
  show ?case
  proof (cases "unescapedSet C")
    case True
    with "2.prems" obtain r where r: "encodeURIComponent cs = Inr r" "e = C # r"
      by (auto simp add: prepend_Inr_iff)
    from "2.IH"(1) [OF True r(1)] have "decodeURIComponent r = Inr cs" .
    then show ?thesis
      using unescaped_not_pct [OF True] r(2) by simp
  next
    case False
    define x where "x = CodePointAt (C # cs)"
    from encode_escaped [OF False "2.prems"] obtain r where
      paired: "\<not> IsUnpairedSurrogate x" and
      r: "encodeURIComponent (drop (CodeUnitCount x - 1) cs) = Inr r"
         "e = concat (map pctOctet (utf8_encode (CodePoint x))) @ r"
      unfolding x_def by blast
    from "2.IH"(2) [OF False x_def paired r(1)]
    have "decodeURIComponent r = Inr (drop (CodeUnitCount x - 1) cs)" .
    then show ?thesis
      using decode_encode_step [OF False, of cs r] paired take_drop_CodeUnitCount [of C cs] r(2)
      by (simp add: x_def del: CodePointAt.simps decodeURIComponent.simps)
  qed
qed

lemma encode_chars:
  "encodeURIComponent s = Inr e \<Longrightarrow> c \<in> set e \<Longrightarrow> unescapedSet c \<or> c = 0x25"
proof (induction s arbitrary: e rule: encodeURIComponent.induct)
  case 1
  then show ?case by simp
next
  case (2 C cs)
  show ?case
  proof (cases "unescapedSet C")
    case True
    with "2.prems" obtain r where r: "encodeURIComponent cs = Inr r" "e = C # r"
      by (auto simp add: prepend_Inr_iff)
    then show ?thesis using "2.IH"(1) [OF True r(1)] "2.prems"(2) True by auto
  next
    case False
    define x where "x = CodePointAt (C # cs)"
    from encode_escaped [OF False "2.prems"(1)] obtain r where
      paired: "\<not> IsUnpairedSurrogate x" and
      r: "encodeURIComponent (drop (CodeUnitCount x - 1) cs) = Inr r"
         "e = concat (map pctOctet (utf8_encode (CodePoint x))) @ r"
      unfolding x_def by blast
    have "CodePoint x < 0x110000"
      using paired unfolding x_def by (rule CodePointAt_bound)
    then have oct: "\<forall>b \<in> set (utf8_encode (CodePoint x)). b < 256"
      by (rule utf8_encode_octets)
    from "2.prems"(2) r(2)
    consider b where "b \<in> set (utf8_encode (CodePoint x))" "c \<in> set (pctOctet b)"
      | "c \<in> set r" by auto
    then show ?thesis
    proof cases
      case 1
      then show ?thesis using oct pctOctet_chars by blast
    next
      case 2
      then show ?thesis using "2.IH"(2) [OF False x_def paired r(1)] by simp
    qed
  qed
qed

lemma encode_Nil: "encodeURIComponent s = Inr [] \<Longrightarrow> s = []"
  by (cases s)
     (auto simp add: prepend_Inr_iff Let_def utf8_encode_def pctOctet_def
        simp del: CodePointAt.simps split: if_splits)


lemma decode_error: "decodeURIComponent s = Inl e \<Longrightarrow> e = URIError"
proof (induction s rule: decodeURIComponent.induct)
  case 1
  then show ?case by simp
next
  case (2 C cs)
  show ?case
  proof (cases "C \<noteq> 0x25")
    case True
    then show ?thesis using 2 by (simp add: prepend_Inl_iff)
  next
    case False
    then show ?thesis
      using "2.prems" "2.IH"(2,3)
      by (auto simp add: prepend_Inl_iff Let_def split: if_splits option.splits)
  qed
qed

section \<open>The pieces of \<open>split\<close>\<close>

lemma split_takeWhile:
  "split sep s =
     takeWhile (\<lambda>c. c \<noteq> sep) s
       # (case dropWhile (\<lambda>c. c \<noteq> sep) s of [] \<Rightarrow> [] | x # r \<Rightarrow> split sep r)"
  by (induction s) (auto split: list.splits)

lemma first_piece:
  "or_empty (fst (shift (split sep s))) = takeWhile (\<lambda>c. c \<noteq> sep) s"
  by (subst split_takeWhile) simp

lemma second_piece:
  "or_empty (fst (shift (snd (shift (split sep s))))) =
     takeWhile (\<lambda>c. c \<noteq> sep) (drop 1 (dropWhile (\<lambda>c. c \<noteq> sep) s))"
proof (cases "dropWhile (\<lambda>c. c \<noteq> sep) s")
  case Nil
  show ?thesis by (subst split_takeWhile) (simp add: Nil)
next
  case (Cons x r)
  have "or_empty (fst (shift (split sep r))) = takeWhile (\<lambda>c. c \<noteq> sep) r"
    by (rule first_piece)
  then show ?thesis by (subst split_takeWhile) (simp add: Cons)
qed



section \<open>Properties of the parser\<close>

lemma parseCookie_pieces:
  "parseCookie fragment =
     (case decodeURIComponent (trimLeft (takeWhile (\<lambda>c. c \<noteq> 0x3D) fragment)) of
        Inl e \<Rightarrow> Inl e
      | Inr name \<Rightarrow>
          if name = [] then Inr None
          else (case decodeURIComponent
                       (takeWhile (\<lambda>c. c \<noteq> 0x3D)
                          (drop 1 (dropWhile (\<lambda>c. c \<noteq> 0x3D) fragment))) of
                  Inl e \<Rightarrow> Inl e
                | Inr v \<Rightarrow> Inr (Some (new_Cookie2 name v))))"
  by (simp only: parseCookie_def Let_def first_piece second_piece)

lemma parseCookie_error: "parseCookie f = Inl e \<Longrightarrow> e = URIError"
  by (auto simp add: parseCookie_def Let_def dest: decode_error split: sum.splits if_splits)







text \<open>
  What \<open>parseCookie\<close> computes, for every fragment. The name part is the text before
  the first \<open>=\<close> and the value part is the text between the first \<open>=\<close> and the second
  one (up to the end when there is no second one, empty when there is no \<open>=\<close> at all).
  The name part loses its leading white space and is percent-decoded; an empty name gives
  null; otherwise the value part is percent-decoded and the cookie of that name and value,
  with the default attributes, is returned. A malformed escape in a part that is decoded
  raises URIError. On a fragment with at most one \<open>=\<close> this is the cut at the first \<open>=\<close>.
\<close>

lemma parseCookie_first_two_pieces:
  "parseCookie fragment =
     (case decodeURIComponent (trimLeft (takeWhile (\<lambda>c. c \<noteq> 0x3D) fragment)) of
        Inl e \<Rightarrow> Inl e
      | Inr name \<Rightarrow>
          if name = [] then Inr None
          else (case decodeURIComponent
                       (takeWhile (\<lambda>c. c \<noteq> 0x3D)
                          (drop 1 (dropWhile (\<lambda>c. c \<noteq> 0x3D) fragment))) of
                  Inl e \<Rightarrow> Inl e
                | Inr v \<Rightarrow> Inr (Some (new_Cookie2 name v))))
   \<and> (parseCookie fragment = Inl e \<longrightarrow> e = URIError)
   \<and> (0x3D \<notin> set (drop 1 (dropWhile (\<lambda>c. c \<noteq> 0x3D) fragment)) \<longrightarrow>
        parseCookie fragment = parseCookie_first_eq fragment)"
proof -
  have "parseCookie fragment = parseCookie_first_eq fragment"
    if "0x3D \<notin> set (drop 1 (dropWhile (\<lambda>c. c \<noteq> 0x3D) fragment))"
  proof -
    have "takeWhile (\<lambda>c. c \<noteq> 0x3D) (drop 1 (dropWhile (\<lambda>c. c \<noteq> 0x3D) fragment))
            = drop 1 (dropWhile (\<lambda>c. c \<noteq> 0x3D) fragment)"
      using that by (intro takeWhile_eq_all_conv [THEN iffD2]) auto
    then show ?thesis
      by (simp only: parseCookie_pieces parseCookie_first_eq_def Let_def)
  qed
  then show ?thesis
    using parseCookie_pieces [of fragment] parseCookie_error [of fragment e] by blast
qed

lemma parseCookie_first_two_pieces_example:
  "0x3D \<notin> set (drop 1 (dropWhile (\<lambda>c. c \<noteq> 0x3D) (js '' sid=%41b'')))
   \<and> parseCookie (js '' sid=%41b'') = parseCookie_first_eq (js '' sid=%41b'')
   \<and> parseCookie (js '' sid=%41b'') = Inr (Some (new_Cookie2 (js ''sid'') (js ''Ab'')))
   \<and> parseCookie (js ''a=%'') = Inl URIError"
proof -
  have h: "0x3D \<notin> set (drop 1 (dropWhile (\<lambda>c. c \<noteq> 0x3D) (js '' sid=%41b'')))"
    by (simp add: js_def)
  have v: "parseCookie (js '' sid=%41b'') = Inr (Some (new_Cookie2 (js ''sid'') (js ''Ab'')))"
    by (simp add: parseCookie_def js_def trimLeft_def isWhiteSpace_def hexValue_def
          leading_ones_def)
  have r: "parseCookie (js ''a=%'') = Inl URIError"
    by (simp add: parseCookie_def js_def trimLeft_def isWhiteSpace_def)
  from parseCookie_first_two_pieces [of "js '' sid=%41b''" URIError] h
  have "parseCookie (js '' sid=%41b'') = parseCookie_first_eq (js '' sid=%41b'')"
    by blast
  with h v r show ?thesis by blast
qed

text \<open>
  Claim C3: \<open>parseCookie\<close> cuts the fragment at its first \<open>=\<close> and the value is
  everything after it. The code does not do this on the fragment \<open>token=YWJj==\<close>, a
  value in base64 with its padding: \<open>split\<close> cuts at every \<open>=\<close>, the second piece alone
  is decoded, and the cookie has the value \<open>YWJj\<close> where the cut at the first \<open>=\<close> gives
  \<open>YWJj==\<close>. The class \<open>Cookie\<close> writes such a value as it is, raw being the default, so
  the manager does not read back what the cookie wrote.
\<close>

theorem parseCookie_value_stops_at_second_eq:
  "parseCookie (js ''token=YWJj=='') = Inr (Some (new_Cookie2 (js ''token'') (js ''YWJj'')))
   \<and> parseCookie_first_eq (js ''token=YWJj=='')
       = Inr (Some (new_Cookie2 (js ''token'') (js ''YWJj=='')))
   \<and> parseCookie (js ''token=YWJj=='') \<noteq> parseCookie_first_eq (js ''token=YWJj=='')
   \<and> rawIfNeededOf (new_Cookie2 (js ''token'') (js ''YWJj=='')) (js ''token'') = Inr (js ''token'')
   \<and> rawIfNeededOf (new_Cookie2 (js ''token'') (js ''YWJj=='')) (js ''YWJj=='')
       = Inr (js ''YWJj=='')"
  by (simp add: parseCookie_def parseCookie_first_eq_def js_def trimLeft_def isWhiteSpace_def
        new_Cookie2_def new_Cookie_def rawIfNeededOf_def isRaw_def)

text \<open>
  Claim C4. For a name that is not empty and has neither \<open>=\<close> nor \<open>;\<close>, and any value,
  both of which \<open>encodeURIComponent\<close> can encode, parsing the fragment made of the encoded
  name, \<open>=\<close> and the encoded value gives a cookie with that name and that value.
\<close>

theorem parseCookie_round_trip:
  assumes n: "n \<noteq> []" "0x3D \<notin> set n" "0x3B \<notin> set n"
    and en: "encodeURIComponent n = Inr en" and ev: "encodeURIComponent v = Inr ev"
  shows "\<exists>c. parseCookie (en @ js ''='' @ ev) = Inr (Some c) \<and> getName c = n \<and> getValue c = v"
proof -
  have chars_n: "\<forall>c \<in> set en. c \<noteq> 0x3D \<and> \<not> isWhiteSpace c"
    using encode_chars [OF en] unescaped_not_special by blast
  have chars_v: "\<forall>c \<in> set ev. c \<noteq> 0x3D"
    using encode_chars [OF ev] unescaped_not_special by blast
  have "en \<noteq> []" using en n(1) encode_Nil by blast
  then have trim: "trimLeft en = en"
    using chars_n by (cases en) (simp_all add: trimLeft_def)
  have tw: "takeWhile (\<lambda>c. c \<noteq> 0x3D) (en @ 0x3D # ev) = en"
    using chars_n by (simp add: takeWhile_append1 takeWhile_tail)
  have dw: "dropWhile (\<lambda>c. c \<noteq> 0x3D) (en @ 0x3D # ev) = 0x3D # ev"
    using chars_n by (simp add: dropWhile_append2)
  have tv: "takeWhile (\<lambda>c. c \<noteq> 0x3D) ev = ev"
    using chars_v by simp
  have "parseCookie (en @ 0x3D # ev) = Inr (Some (new_Cookie2 n v))"
    using n(1) by (simp add: parseCookie_pieces tw dw tv trim
        decode_encode [OF en] decode_encode [OF ev])
  then show ?thesis
    by (simp add: js_def new_Cookie2_def new_Cookie_def getName_def getValue_def)
qed

theorem parseCookie_round_trip_witness:
  "[0x73, 0x20, 0xE9] \<noteq> ([] :: jsstring)
   \<and> 0x3D \<notin> set [0x73, 0x20, 0xE9 :: jschar] \<and> 0x3B \<notin> set [0x73, 0x20, 0xE9 :: jschar]
   \<and> encodeURIComponent [0x73, 0x20, 0xE9] = Inr (js ''s%20%C3%A9'')
   \<and> encodeURIComponent [0x3D, 0x20AC] = Inr (js ''%3D%E2%82%AC'')
   \<and> (\<exists>c. parseCookie (js ''s%20%C3%A9'' @ js ''='' @ js ''%3D%E2%82%AC'') = Inr (Some c)
          \<and> getName c = [0x73, 0x20, 0xE9] \<and> getValue c = [0x3D, 0x20AC])"
proof -
  have n: "[0x73, 0x20, 0xE9] \<noteq> ([] :: jsstring)" "0x3D \<notin> set [0x73, 0x20, 0xE9 :: jschar]"
    "0x3B \<notin> set [0x73, 0x20, 0xE9 :: jschar]"
    by simp_all
  have en: "encodeURIComponent [0x73, 0x20, 0xE9] = Inr (js ''s%20%C3%A9'')"
    by (simp add: js_def unescapedSet_def isLeadingSurrogate_def isTrailingSurrogate_def
          utf8_encode_def pctOctet_def hexDigit_def)
  have ev: "encodeURIComponent [0x3D, 0x20AC] = Inr (js ''%3D%E2%82%AC'')"
    by (simp add: js_def unescapedSet_def isLeadingSurrogate_def isTrailingSurrogate_def
          utf8_encode_def pctOctet_def hexDigit_def)
  from n en ev parseCookie_round_trip [OF n en ev] show ?thesis
    by - (intro conjI, assumption+)
qed




section \<open>Properties of the manager's lookups\<close>

lemma ObjectPrototype_get_cases:
  "ObjectPrototype_get key ObjectPrototype = Undefined
   \<or> ObjectPrototype_get key ObjectPrototype = ObjectPrototype
   \<or> (\<exists>f. ObjectPrototype_get key ObjectPrototype = Function f)"
  by (simp add: ObjectPrototype_get_def)

text \<open>
  On a name that \<open>Object.prototype\<close> does not define, and while both objects have the
  prototype they were created with, \<open>get\<close> is the lookup among the own properties of the
  queue, then of the incoming cookies, then the default value.
\<close>

lemma get_own_properties:
  assumes "proto (m_queue m) = None" "proto (m_incoming m) = None"
    and "ObjectPrototype_get name ObjectPrototype = Undefined"
  shows "get name defaultValue m =
     (case own (m_queue m) name of
        Some c \<Rightarrow> Instance c
      | None \<Rightarrow> (case own (m_incoming m) name of Some c \<Rightarrow> Instance c | None \<Rightarrow> defaultValue))"
  using assms
  by (simp add: get_def queued_def incoming_def object_get_def prototypeOf_def Let_def
        split: option.splits)

lemma get_queued_own_property:
  "own (m_queue m) name = Some c \<Longrightarrow> get name defaultValue m = Instance c"
  by (simp add: get_def queued_def object_get_def Let_def)

lemma get_after_queue:
  "ICookie_getName c \<noteq> js ''__proto__'' \<Longrightarrow>
     get (ICookie_getName c) defaultValue (queue c m) = Instance c"
  by (simp add: get_def queued_def queue_def object_get_def object_set_def Let_def)

text \<open>
  Claim C2: \<open>get\<close> returns the queued cookie of the name, or else the incoming cookie
  of the name, or else the default value. The code does not do this on a name that the
  chain of prototypes of \<open>_queue\<close> or \<open>_incoming\<close> resolves. On the manager of a request
  without cookies, where nothing is queued and nothing came in, \<open>get('toString')\<close>
  returns the method \<open>Object.prototype.toString\<close> and not the default value. After
  the header \<open>__proto__=x\<close> the parsed cookie is the prototype of \<open>_incoming\<close> and an own
  property of nothing: \<open>get('getValue')\<close> returns a method of the class and
  \<open>get('_value')\<close> the string \<open>x\<close>, neither of them a cookie or the default value.
\<close>

theorem get_returns_inherited_property:
  "new_CookiesManager None = Inr \<lparr>m_incoming = empty_object, m_queue = empty_object\<rparr>
   \<and> get (js ''toString'') Null \<lparr>m_incoming = empty_object, m_queue = empty_object\<rparr>
       = Function (js ''Object.prototype.toString'')
   \<and> new_CookiesManager (Some (js ''__proto__=x'')) =
       Inr \<lparr>m_incoming =
              \<lparr>own = Map.empty,
               proto = Some (CookieInstance (new_Cookie2 (js ''__proto__'') (js ''x'')))\<rparr>,
            m_queue = empty_object\<rparr>
   \<and> get (js ''getValue'') Null
         \<lparr>m_incoming =
            \<lparr>own = Map.empty,
             proto = Some (CookieInstance (new_Cookie2 (js ''__proto__'') (js ''x'')))\<rparr>,
          m_queue = empty_object\<rparr>
       = Function (js ''Cookie.prototype.getValue'')
   \<and> get (js ''_value'') Null
         \<lparr>m_incoming =
            \<lparr>own = Map.empty,
             proto = Some (CookieInstance (new_Cookie2 (js ''__proto__'') (js ''x'')))\<rparr>,
          m_queue = empty_object\<rparr>
       = String (js ''x'')"
proof -
  have a: "new_CookiesManager None = Inr \<lparr>m_incoming = empty_object, m_queue = empty_object\<rparr>"
    by (simp add: new_CookiesManager_def parseIncomingCookies_def parseCookie_def trimLeft_def)
  have b: "get (js ''toString'') Null \<lparr>m_incoming = empty_object, m_queue = empty_object\<rparr>
       = Function (js ''Object.prototype.toString'')"
    by (simp add: get_def queued_def object_get_def prototypeOf_def ObjectPrototype_get_def
          ObjectPrototype_methods_def js_def)
  have c: "new_CookiesManager (Some (js ''__proto__=x'')) =
       Inr \<lparr>m_incoming =
              \<lparr>own = Map.empty,
               proto = Some (CookieInstance (new_Cookie2 (js ''__proto__'') (js ''x'')))\<rparr>,
            m_queue = empty_object\<rparr>"
    by (simp add: new_CookiesManager_def parseIncomingCookies_def parseCookie_def object_set_def
          js_def trimLeft_def isWhiteSpace_def getName_def new_Cookie2_def new_Cookie_def)
  have d: "get (js ''getValue'') Null
         \<lparr>m_incoming =
            \<lparr>own = Map.empty,
             proto = Some (CookieInstance (new_Cookie2 (js ''__proto__'') (js ''x'')))\<rparr>,
          m_queue = empty_object\<rparr>
       = Function (js ''Cookie.prototype.getValue'')"
    by (simp add: get_def queued_def incoming_def object_get_def prototypeOf_def
          ObjectPrototype_get_def ObjectPrototype_methods_def Cookie_own_def
          CookiePrototype_get_def CookiePrototype_methods_def js_def)
  have e: "get (js ''_value'') Null
         \<lparr>m_incoming =
            \<lparr>own = Map.empty,
             proto = Some (CookieInstance (new_Cookie2 (js ''__proto__'') (js ''x'')))\<rparr>,
          m_queue = empty_object\<rparr>
       = String (js ''x'')"
    by (simp add: get_def queued_def incoming_def object_get_def prototypeOf_def
          ObjectPrototype_get_def ObjectPrototype_methods_def Cookie_own_def
          new_Cookie2_def new_Cookie_def js_def)
  from a b c d e show ?thesis by - (intro conjI, assumption+)
qed

text \<open>
  While the queue has the prototype it was created with, \<open>hasQueued\<close> is true exactly for
  the names of its own properties that hold an instance of \<open>Cookie\<close>.
\<close>

lemma hasQueued_own_properties:
  assumes "proto (m_queue m) = None"
  shows "hasQueued name m = (\<exists>c. own (m_queue m) name = Some (CookieInstance c))"
proof (cases "own (m_queue m) name")
  case None
  then show ?thesis
    using assms ObjectPrototype_get_cases [of name]
    by (auto simp add: hasQueued_def object_get_def prototypeOf_def)
next
  case (Some v)
  then show ?thesis
    by (cases v) (simp_all add: hasQueued_def object_get_def)
qed

lemma hasQueued_after_queue:
  "getName c \<noteq> js ''__proto__'' \<Longrightarrow> hasQueued (getName c) (queue (CookieInstance c) m)"
  by (simp add: hasQueued_def queue_def object_get_def object_set_def)

lemma hasQueued_after_unqueue:
  "proto (m_queue m) = None \<Longrightarrow> \<not> hasQueued name (unqueue name m)"
  using ObjectPrototype_get_cases [of name]
  by (auto simp add: hasQueued_def unqueue_def object_get_def object_delete_def prototypeOf_def)

text \<open>
  Claim C9: \<open>hasQueued\<close> is true exactly for the names that have an entry in the queue,
  true for the name of a cookie after \<open>queue\<close> and false for a name after \<open>unqueue\<close>.
  The code does not do this for a cookie of name \<open>__proto__\<close>: \<open>queue\<close> makes it the
  prototype of \<open>_queue\<close> and adds no entry, \<open>unqueue\<close> finds nothing to delete, and
  \<open>hasQueued('__proto__')\<close> is true before and after \<open>unqueue\<close>, with no entry in the
  queue. Nor does it for an object of another class behind \<open>ICookie\<close>, which \<open>queue\<close>
  accepts: the entry is there and \<open>hasQueued\<close> is false.
\<close>

theorem hasQueued_true_after_unqueue:
  "queue (CookieInstance (new_Cookie2 (js ''__proto__'') (js ''x'')))
      \<lparr>m_incoming = empty_object, m_queue = empty_object\<rparr>
     = \<lparr>m_incoming = empty_object,
        m_queue = \<lparr>own = Map.empty,
                   proto = Some (CookieInstance (new_Cookie2 (js ''__proto__'') (js ''x'')))\<rparr>\<rparr>
   \<and> unqueue (js ''__proto__'')
        \<lparr>m_incoming = empty_object,
         m_queue = \<lparr>own = Map.empty,
                    proto = Some (CookieInstance (new_Cookie2 (js ''__proto__'') (js ''x'')))\<rparr>\<rparr>
     = \<lparr>m_incoming = empty_object,
        m_queue = \<lparr>own = Map.empty,
                   proto = Some (CookieInstance (new_Cookie2 (js ''__proto__'') (js ''x'')))\<rparr>\<rparr>
   \<and> hasQueued (js ''__proto__'')
        \<lparr>m_incoming = empty_object,
         m_queue = \<lparr>own = Map.empty,
                    proto = Some (CookieInstance (new_Cookie2 (js ''__proto__'') (js ''x'')))\<rparr>\<rparr>
   \<and> queue (OtherICookie (js ''sid'')
               [(js ''getName'', Function (js ''SessionCookie.prototype.getName''))])
        \<lparr>m_incoming = empty_object, m_queue = empty_object\<rparr>
     = \<lparr>m_incoming = empty_object,
        m_queue = \<lparr>own = [js ''sid'' \<mapsto> OtherICookie (js ''sid'')
                            [(js ''getName'', Function (js ''SessionCookie.prototype.getName''))]],
                   proto = None\<rparr>\<rparr>
   \<and> \<not> hasQueued (js ''sid'')
        \<lparr>m_incoming = empty_object,
         m_queue = \<lparr>own = [js ''sid'' \<mapsto> OtherICookie (js ''sid'')
                            [(js ''getName'', Function (js ''SessionCookie.prototype.getName''))]],
                    proto = None\<rparr>\<rparr>"
proof -
  have a: "queue (CookieInstance (new_Cookie2 (js ''__proto__'') (js ''x'')))
      \<lparr>m_incoming = empty_object, m_queue = empty_object\<rparr>
     = \<lparr>m_incoming = empty_object,
        m_queue = \<lparr>own = Map.empty,
                   proto = Some (CookieInstance (new_Cookie2 (js ''__proto__'') (js ''x'')))\<rparr>\<rparr>"
    by (simp add: queue_def object_set_def getName_def new_Cookie2_def new_Cookie_def)
  have b: "unqueue (js ''__proto__'')
        \<lparr>m_incoming = empty_object,
         m_queue = \<lparr>own = Map.empty,
                    proto = Some (CookieInstance (new_Cookie2 (js ''__proto__'') (js ''x'')))\<rparr>\<rparr>
     = \<lparr>m_incoming = empty_object,
        m_queue = \<lparr>own = Map.empty,
                   proto = Some (CookieInstance (new_Cookie2 (js ''__proto__'') (js ''x'')))\<rparr>\<rparr>"
    by (simp add: unqueue_def object_delete_def)
  have c: "hasQueued (js ''__proto__'')
        \<lparr>m_incoming = empty_object,
         m_queue = \<lparr>own = Map.empty,
                    proto = Some (CookieInstance (new_Cookie2 (js ''__proto__'') (js ''x'')))\<rparr>\<rparr>"
    by (simp add: hasQueued_def object_get_def prototypeOf_def ObjectPrototype_get_def
          Cookie_own_def CookiePrototype_get_def CookiePrototype_methods_def js_def)
  have d: "queue (OtherICookie (js ''sid'')
               [(js ''getName'', Function (js ''SessionCookie.prototype.getName''))])
        \<lparr>m_incoming = empty_object, m_queue = empty_object\<rparr>
     = \<lparr>m_incoming = empty_object,
        m_queue = \<lparr>own = [js ''sid'' \<mapsto> OtherICookie (js ''sid'')
                            [(js ''getName'', Function (js ''SessionCookie.prototype.getName''))]],
                   proto = None\<rparr>\<rparr>"
    by (simp add: queue_def object_set_def js_def)
  have e: "\<not> hasQueued (js ''sid'')
        \<lparr>m_incoming = empty_object,
         m_queue = \<lparr>own = [js ''sid'' \<mapsto> OtherICookie (js ''sid'')
                            [(js ''getName'', Function (js ''SessionCookie.prototype.getName''))]],
                    proto = None\<rparr>\<rparr>"
    by (simp add: hasQueued_def object_get_def)
  from a b c d e show ?thesis by - (intro conjI, assumption+)
qed

text \<open>
  Claim C7, as stated: once the constructor has parsed the header, no method of the
  manager changes the incoming map. The public method \<open>parseIncomingCookies\<close> refutes it:
  called on a manager built from a request without cookies, it stores an entry.
\<close>

theorem incoming_changed_by_parseIncomingCookies:
  "new_CookiesManager None = Inr \<lparr>m_incoming = empty_object, m_queue = empty_object\<rparr>
   \<and> own (m_incoming (after_call (ParseIncomingCookies (js ''a=1''))
        \<lparr>m_incoming = empty_object, m_queue = empty_object\<rparr>)) (js ''a'')
      = Some (CookieInstance (new_Cookie2 (js ''a'') (js ''1'')))
   \<and> m_incoming (after_call (ParseIncomingCookies (js ''a=1''))
        \<lparr>m_incoming = empty_object, m_queue = empty_object\<rparr>)
      \<noteq> m_incoming \<lparr>m_incoming = empty_object, m_queue = empty_object\<rparr>"
proof -
  have a: "new_CookiesManager None = Inr \<lparr>m_incoming = empty_object, m_queue = empty_object\<rparr>"
    by (simp add: new_CookiesManager_def parseIncomingCookies_def parseCookie_def trimLeft_def)
  have b: "own (m_incoming (after_call (ParseIncomingCookies (js ''a=1''))
        \<lparr>m_incoming = empty_object, m_queue = empty_object\<rparr>)) (js ''a'')
      = Some (CookieInstance (new_Cookie2 (js ''a'') (js ''1'')))"
    by (simp add: parseIncomingCookies_def parseCookie_def object_set_def js_def trimLeft_def
        isWhiteSpace_def getName_def new_Cookie2_def new_Cookie_def)
  then have "own (m_incoming (after_call (ParseIncomingCookies (js ''a=1''))
        \<lparr>m_incoming = empty_object, m_queue = empty_object\<rparr>)) (js ''a'')
      \<noteq> own (m_incoming \<lparr>m_incoming = empty_object, m_queue = empty_object\<rparr>) (js ''a'')"
    by simp
  then have c: "m_incoming (after_call (ParseIncomingCookies (js ''a=1''))
        \<lparr>m_incoming = empty_object, m_queue = empty_object\<rparr>)
      \<noteq> m_incoming \<lparr>m_incoming = empty_object, m_queue = empty_object\<rparr>"
    by (auto dest: arg_cong [where f = own] fun_cong)
  from a b c show ?thesis by - (intro conjI, assumption+)
qed

text \<open>
  Claim C7, amended. The constructor fills the incoming map by one call of
  \<open>parseIncomingCookies\<close> on the header of the request, and every method of the manager
  other than \<open>parseIncomingCookies\<close> leaves the incoming map as it was.
\<close>

theorem incoming_unchanged_by_other_methods:
  "(new_CookiesManager header = Inr m0 \<longrightarrow>
      m0 = snd (parseIncomingCookies (or_empty header)
                  \<lparr>m_incoming = empty_object, m_queue = empty_object\<rparr>))
   \<and> ((\<forall>h. c \<noteq> ParseIncomingCookies h) \<longrightarrow> m_incoming (after_call c m) = m_incoming m)"
proof -
  have "m0 = snd (parseIncomingCookies (or_empty header)
                  \<lparr>m_incoming = empty_object, m_queue = empty_object\<rparr>)"
    if "new_CookiesManager header = Inr m0"
    using that by (auto simp add: new_CookiesManager_def split: prod.splits sum.splits)
  moreover have "m_incoming (after_call c m) = m_incoming m"
    if "\<forall>h. c \<noteq> ParseIncomingCookies h"
    using that by (cases c) (simp_all add: queue_def unqueue_def)
  ultimately show ?thesis by blast
qed

theorem incoming_unchanged_by_other_methods_witness:
  "new_CookiesManager (Some (js ''x=old'')) =
     Inr \<lparr>m_incoming =
            \<lparr>own = [js ''x'' \<mapsto> CookieInstance (new_Cookie2 (js ''x'') (js ''old''))],
             proto = None\<rparr>,
          m_queue = empty_object\<rparr>
   \<and> m_incoming (after_call (Queue (CookieInstance (new_Cookie2 (js ''x'') (js ''new''))))
        \<lparr>m_incoming =
           \<lparr>own = [js ''x'' \<mapsto> CookieInstance (new_Cookie2 (js ''x'') (js ''old''))],
            proto = None\<rparr>,
         m_queue = empty_object\<rparr>)
     = \<lparr>own = [js ''x'' \<mapsto> CookieInstance (new_Cookie2 (js ''x'') (js ''old''))],
        proto = None\<rparr>"
proof -
  have a: "new_CookiesManager (Some (js ''x=old'')) =
     Inr \<lparr>m_incoming =
            \<lparr>own = [js ''x'' \<mapsto> CookieInstance (new_Cookie2 (js ''x'') (js ''old''))],
             proto = None\<rparr>,
          m_queue = empty_object\<rparr>"
    by (simp add: new_CookiesManager_def parseIncomingCookies_def parseCookie_def object_set_def
        js_def trimLeft_def isWhiteSpace_def getName_def new_Cookie2_def new_Cookie_def)
  have b: "\<forall>h. Queue (CookieInstance (new_Cookie2 (js ''x'') (js ''new'')))
               \<noteq> ParseIncomingCookies h"
    by simp
  from incoming_unchanged_by_other_methods [of "Some (js ''x=old'')"
      "\<lparr>m_incoming =
         \<lparr>own = [js ''x'' \<mapsto> CookieInstance (new_Cookie2 (js ''x'') (js ''old''))],
          proto = None\<rparr>,
        m_queue = empty_object\<rparr>"
      "Queue (CookieInstance (new_Cookie2 (js ''x'') (js ''new'')))"
      "\<lparr>m_incoming =
         \<lparr>own = [js ''x'' \<mapsto> CookieInstance (new_Cookie2 (js ''x'') (js ''old''))],
          proto = None\<rparr>,
        m_queue = empty_object\<rparr>"]
    b
  have "m_incoming (after_call (Queue (CookieInstance (new_Cookie2 (js ''x'') (js ''new''))))
        \<lparr>m_incoming =
           \<lparr>own = [js ''x'' \<mapsto> CookieInstance (new_Cookie2 (js ''x'') (js ''old''))],
            proto = None\<rparr>,
         m_queue = empty_object\<rparr>)
     = m_incoming
        \<lparr>m_incoming =
           \<lparr>own = [js ''x'' \<mapsto> CookieInstance (new_Cookie2 (js ''x'') (js ''old''))],
            proto = None\<rparr>,
         m_queue = empty_object\<rparr>"
    by blast
  then have "m_incoming (after_call (Queue (CookieInstance (new_Cookie2 (js ''x'') (js ''new''))))
        \<lparr>m_incoming =
           \<lparr>own = [js ''x'' \<mapsto> CookieInstance (new_Cookie2 (js ''x'') (js ''old''))],
            proto = None\<rparr>,
         m_queue = empty_object\<rparr>)
     = \<lparr>own = [js ''x'' \<mapsto> CookieInstance (new_Cookie2 (js ''x'') (js ''old''))],
        proto = None\<rparr>"
    by simp
  with a show ?thesis by - (intro conjI, assumption+)
qed

section \<open>Occurrences of a pattern that begins with a semicolon\<close>

lemma starts_with_refl: "starts_with p (p @ t)"
  by (induction p) simp_all

lemma starts_with_same: "starts_with p p"
  using starts_with_refl [of p "[]"] by simp

lemma starts_with_append_sep:
  assumes "sep \<notin> set p" "ys = [] \<or> hd ys = sep"
  shows "starts_with p (xs @ ys) = starts_with p xs"
  using assms
proof (induction p xs rule: starts_with.induct)
  case (1 t)
  then show ?case by simp
next
  case (2 p ps)
  then show ?case by (cases ys) auto
next
  case (3 p ps x xs)
  then show ?case by simp
qed

lemma occurrences_no_sep: "sep \<notin> set xs \<Longrightarrow> occurrences (sep # p) xs = 0"
  by (induction xs) auto

lemma occurrences_append:
  assumes "sep \<notin> set p" "ys = [] \<or> hd ys = sep"
  shows "occurrences (sep # p) (xs @ ys) = occurrences (sep # p) xs + occurrences (sep # p) ys"
proof (induction xs)
  case Nil
  then show ?case by simp
next
  case (Cons x xs)
  then show ?case using starts_with_append_sep [OF assms, of xs] by simp
qed

lemma occurrences_segment:
  "sep \<notin> set b \<Longrightarrow>
   occurrences (sep # p) (if emitted then sep # b else []) =
     (if emitted \<and> starts_with p b then 1 else 0)"
  by (simp add: occurrences_no_sep)

lemma segment_append: "segment x \<Longrightarrow> segment y \<Longrightarrow> segment (x @ y)"
  by (cases x) (auto simp add: segment_def)

lemma segment_if: "segment (if b then 0x3B # x else [])"
  by (simp add: segment_def)

lemma occurrences_two:
  assumes "0x3B \<notin> set p" "segment ys"
  shows "occurrences (0x3B # p) (xs @ ys) = occurrences (0x3B # p) xs + occurrences (0x3B # p) ys"
  using assms occurrences_append [of "0x3B" p ys xs] by (simp add: segment_def)

section \<open>The text that \<open>toString\<close> returns\<close>

lemma new_Cookie_getters:
  "getName (new_Cookie n v e p d s h r ss) = n"
  "getValue (new_Cookie n v e p d s h r ss) = v"
  "getExpiry (new_Cookie n v e p d s h r ss) = e"
  "getPath (new_Cookie n v e p d s h r ss) = p"
  "getDomain (new_Cookie n v e p d s h r ss) = d"
  "isSecure (new_Cookie n v e p d s h r ss) = s"
  "isHttpOnly (new_Cookie n v e p d s h r ss) = h"
  "isRaw (new_Cookie n v e p d s h r ss) = r"
  "getSameSite (new_Cookie n v e p d s h r ss) = ss"
  "(new_Cookie n v e p d s h r ss)\<lparr>c_expiresAt := t\<rparr> = new_Cookie n v t p d s h r ss"
  by (simp_all add: new_Cookie_def getName_def getValue_def getExpiry_def getPath_def
        getDomain_def isSecure_def isHttpOnly_def isRaw_def getSameSite_def)

lemma attr_segments:
  "attr_path c = (if getPath c \<noteq> [] then 0x3B # (js '' path='' @ getPath c) else [])"
  "attr_domain c = (if getDomain c \<noteq> [] then 0x3B # (js '' domain='' @ getDomain c) else [])"
  "attr_secure c = (if isSecure c then 0x3B # js '' secure'' else [])"
  "attr_httponly c = (if isHttpOnly c then 0x3B # js '' httponly'' else [])"
  "attr_samesite c = (if NONE \<noteq> getSameSite c
      then 0x3B # (js '' samesite='' @ SameSite_valueOf (getSameSite c)) else [])"
  by (simp_all add: attr_path_def attr_domain_def attr_secure_def attr_httponly_def
        attr_samesite_def js_def)

lemma attributes_unfold:
  "attributes c =
     (if getPath c \<noteq> [] then js ''; path='' @ getPath c else [])
     @ (if getDomain c \<noteq> [] then js ''; domain='' @ getDomain c else [])
     @ (if isSecure c then js ''; secure'' else [])
     @ (if isHttpOnly c then js ''; httponly'' else [])
     @ (if getSameSite c \<noteq> NONE
        then js ''; samesite='' @ SameSite_valueOf (getSameSite c) else [])"
  by (simp add: attributes_def attr_path_def attr_domain_def attr_secure_def attr_httponly_def
        attr_samesite_def)

lemma attributes_expiresAt: "attributes (c\<lparr>c_expiresAt := t\<rparr>) = attributes c"
  by (simp add: attributes_def attr_path_def attr_domain_def attr_secure_def attr_httponly_def
        attr_samesite_def getPath_def getDomain_def isSecure_def isHttpOnly_def getSameSite_def)

lemma segment_attributes: "segment (attributes c)"
  unfolding attributes_def attr_segments
  by (intro segment_append segment_if)

lemma SameSite_valueOf_no_semicolon: "0x3B \<notin> set (SameSite_valueOf ss)"
  by (cases ss) (simp_all add: js_def)

lemma rawIfNeededOf_no_semicolon:
  assumes "rawIfNeededOf c x = Inr y" "isRaw c \<longrightarrow> 0x3B \<notin> set x"
  shows "0x3B \<notin> set y"
proof (cases "isRaw c")
  case True
  then show ?thesis using assms by (simp add: rawIfNeededOf_def)
next
  case False
  then have "encodeURIComponent x = Inr y" using assms(1) by (simp add: rawIfNeededOf_def)
  then show ?thesis using encode_chars unescaped_not_special by blast
qed

lemma toString_nonempty:
  assumes "getValue c \<noteq> []"
  shows "toString env c =
    (case rawIfNeededOf c (getName c) of
       Inl e \<Rightarrow> (Inl e, c)
     | Inr nm \<Rightarrow>
         (case rawIfNeededOf c (getValue c) of
            Inl e \<Rightarrow> (Inl e, c)
          | Inr v \<Rightarrow>
              (Inr ((nm @ 0x3D # v)
                    @ (if getExpiry c \<noteq> Num 0
                       then 0x3B # (js '' expires='' @ Redate_responseFormat env (getExpiry c))
                       else [])
                    @ (0x3B # (js '' Max-Age='' @ Number_toString env (getMaxAge env c)))
                    @ attributes c), c)))"
  using assms by (simp add: toString_def Let_def js_def split: sum.splits)

lemma toString_empty:
  assumes "getValue c = []"
  shows "toString env c =
    (case rawIfNeededOf c (getName c) of
       Inl e \<Rightarrow> (Inl e, c)
     | Inr nm \<Rightarrow>
         (if dayjs_subtract_year env 13 (Date_now env) \<noteq> Num 0
             \<and> \<not> dayjs_isValid env (dayjs_subtract_year env 13 (Date_now env))
          then (Inl InvalidArgumentException, c)
          else (Inr ((nm @ [0x3D])
                     @ (0x3B # (js '' expires=''
                          @ Redate_responseFormat env (dayjs_subtract_year env 13 (Date_now env))))
                     @ (0x3B # js '' Max-Age=0'')
                     @ attributes c),
                c\<lparr>c_expiresAt := dayjs_subtract_year env 13 (Date_now env)\<rparr>)))"
  using assms
  by (simp add: toString_def Let_def js_def expire_def setExpire_def getExpiry_def
        attributes_expiresAt split: sum.splits)

text \<open>The text of a call that returns: a head, then the attributes.\<close>

lemma toString_returns:
  assumes "toString env c = (Inr s, c')"
  shows "\<exists>h0.
           s = h0 @ (if getValue c = [] \<or> getExpiry c \<noteq> Num 0
                     then 0x3B # (js '' expires='' @ Redate_responseFormat env (getExpiry c'))
                     else [])
                  @ (0x3B # (js '' Max-Age=''
                       @ (if getValue c = [] then js ''0''
                          else Number_toString env (getMaxAge env c))))
                  @ attributes c
           \<and> ((isRaw c \<longrightarrow> 0x3B \<notin> set (getName c) \<union> set (getValue c)) \<longrightarrow> 0x3B \<notin> set h0)"
proof (cases "getValue c = []")
  case True
  from assms obtain nm where nm: "rawIfNeededOf c (getName c) = Inr nm"
    by (cases "rawIfNeededOf c (getName c)") (simp_all add: toString_empty [OF True])
  from assms have s: "s = (nm @ [0x3D])
       @ (0x3B # (js '' expires=''
            @ Redate_responseFormat env (dayjs_subtract_year env 13 (Date_now env))))
       @ (0x3B # js '' Max-Age=0'') @ attributes c"
    and c': "c' = c\<lparr>c_expiresAt := dayjs_subtract_year env 13 (Date_now env)\<rparr>"
    by (simp_all add: toString_empty [OF True] nm split: if_splits)
  have "s = (nm @ [0x3D])
       @ (if getValue c = [] \<or> getExpiry c \<noteq> Num 0
          then 0x3B # (js '' expires='' @ Redate_responseFormat env (getExpiry c')) else [])
       @ (0x3B # (js '' Max-Age=''
            @ (if getValue c = [] then js ''0'' else Number_toString env (getMaxAge env c))))
       @ attributes c"
    using True by (simp add: s c' getExpiry_def js_def)
  moreover have "0x3B \<notin> set (nm @ [0x3D])"
    if "isRaw c \<longrightarrow> 0x3B \<notin> set (getName c) \<union> set (getValue c)"
    using rawIfNeededOf_no_semicolon [OF nm] that by simp
  ultimately show ?thesis by blast
next
  case False
  from assms obtain nm where nm: "rawIfNeededOf c (getName c) = Inr nm"
    by (cases "rawIfNeededOf c (getName c)") (simp_all add: toString_nonempty [OF False])
  from assms nm obtain v where v: "rawIfNeededOf c (getValue c) = Inr v"
    by (cases "rawIfNeededOf c (getValue c)") (simp_all add: toString_nonempty [OF False])
  have "toString env c = (Inr ((nm @ 0x3D # v)
       @ (if getExpiry c \<noteq> Num 0
          then 0x3B # (js '' expires='' @ Redate_responseFormat env (getExpiry c)) else [])
       @ (0x3B # (js '' Max-Age='' @ Number_toString env (getMaxAge env c))) @ attributes c), c)"
    by (simp add: toString_nonempty [OF False] nm v)
  from trans [OF assms [symmetric] this] have s: "s = (nm @ 0x3D # v)
       @ (if getExpiry c \<noteq> Num 0
          then 0x3B # (js '' expires='' @ Redate_responseFormat env (getExpiry c)) else [])
       @ (0x3B # (js '' Max-Age='' @ Number_toString env (getMaxAge env c))) @ attributes c"
    and c': "c' = c"
    by (simp_all only: prod.inject sum.inject)
  have "s = (nm @ 0x3D # v)
       @ (if getValue c = [] \<or> getExpiry c \<noteq> Num 0
          then 0x3B # (js '' expires='' @ Redate_responseFormat env (getExpiry c')) else [])
       @ (0x3B # (js '' Max-Age=''
            @ (if getValue c = [] then js ''0'' else Number_toString env (getMaxAge env c))))
       @ attributes c"
    using False by (simp add: s c')
  moreover have "0x3B \<notin> set (nm @ 0x3D # v)"
    if "isRaw c \<longrightarrow> 0x3B \<notin> set (getName c) \<union> set (getValue c)"
    using rawIfNeededOf_no_semicolon [OF nm] rawIfNeededOf_no_semicolon [OF v] that by simp
  ultimately show ?thesis by blast
qed

lemma occurrences_attributes:
  assumes "0x3B \<notin> set p" "0x3B \<notin> set (getPath c)" "0x3B \<notin> set (getDomain c)"
  shows "occurrences (0x3B # p) (attributes c) =
      (if getPath c \<noteq> [] \<and> starts_with p (js '' path='' @ getPath c) then 1 else 0)
    + (if getDomain c \<noteq> [] \<and> starts_with p (js '' domain='' @ getDomain c) then 1 else 0)
    + (if isSecure c \<and> starts_with p (js '' secure'') then 1 else 0)
    + (if isHttpOnly c \<and> starts_with p (js '' httponly'') then 1 else 0)
    + (if NONE \<noteq> getSameSite c
          \<and> starts_with p (js '' samesite='' @ SameSite_valueOf (getSameSite c)) then 1 else 0)"
proof -
  have b: "0x3B \<notin> set (js '' path='' @ getPath c)" "0x3B \<notin> set (js '' domain='' @ getDomain c)"
    "0x3B \<notin> set (js '' secure'')" "0x3B \<notin> set (js '' httponly'')"
    "0x3B \<notin> set (js '' samesite='' @ SameSite_valueOf (getSameSite c))"
    using assms(2,3) SameSite_valueOf_no_semicolon [of "getSameSite c"]
    by (simp_all add: js_def)
  have s5: "segment (attr_samesite c)"
    unfolding attr_segments by (rule segment_if)
  have s4: "segment (attr_httponly c @ attr_samesite c)"
    unfolding attr_segments(4) by (intro segment_append segment_if s5)
  have s3: "segment (attr_secure c @ attr_httponly c @ attr_samesite c)"
    unfolding attr_segments(3) by (intro segment_append segment_if s4)
  have s2: "segment (attr_domain c @ attr_secure c @ attr_httponly c @ attr_samesite c)"
    unfolding attr_segments(2) by (intro segment_append segment_if s3)
  have "occurrences (0x3B # p) (attributes c) =
          occurrences (0x3B # p) (attr_path c) + occurrences (0x3B # p) (attr_domain c)
        + occurrences (0x3B # p) (attr_secure c) + occurrences (0x3B # p) (attr_httponly c)
        + occurrences (0x3B # p) (attr_samesite c)"
    unfolding attributes_def
    by (simp only: occurrences_two [OF assms(1) s2] occurrences_two [OF assms(1) s3]
          occurrences_two [OF assms(1) s4] occurrences_two [OF assms(1) s5] add.assoc)
  also have "\<dots> =
      (if getPath c \<noteq> [] \<and> starts_with p (js '' path='' @ getPath c) then 1 else 0)
    + (if getDomain c \<noteq> [] \<and> starts_with p (js '' domain='' @ getDomain c) then 1 else 0)
    + (if isSecure c \<and> starts_with p (js '' secure'') then 1 else 0)
    + (if isHttpOnly c \<and> starts_with p (js '' httponly'') then 1 else 0)
    + (if NONE \<noteq> getSameSite c
          \<and> starts_with p (js '' samesite='' @ SameSite_valueOf (getSameSite c)) then 1 else 0)"
    unfolding attr_segments
    by (simp only: occurrences_segment [OF b(1)] occurrences_segment [OF b(2)]
          occurrences_segment [OF b(3)] occurrences_segment [OF b(4)]
          occurrences_segment [OF b(5)])
  finally show ?thesis .
qed

lemma occurrences_output:
  assumes p: "0x3B \<notin> set p" and h0: "0x3B \<notin> set h0" and eb: "0x3B \<notin> set eb"
    and mb: "0x3B \<notin> set mb"
  shows "occurrences (0x3B # p)
           (h0 @ (if ex then 0x3B # eb else []) @ (0x3B # mb) @ attributes c) =
         (if ex \<and> starts_with p eb then 1 else 0) + (if starts_with p mb then 1 else 0)
         + occurrences (0x3B # p) (attributes c)"
proof -
  have s3: "segment (attributes c)" by (rule segment_attributes)
  have s2: "segment ((0x3B # mb) @ attributes c)"
    by (simp add: segment_def)
  have s1: "segment ((if ex then 0x3B # eb else []) @ (0x3B # mb) @ attributes c)"
    by (intro segment_append segment_if s2)
  have m: "occurrences (0x3B # p) (0x3B # mb) = (if starts_with p mb then 1 else 0)"
    using occurrences_segment [OF mb, of p True] by simp
  show ?thesis
    by (simp only: occurrences_two [OF p s1] occurrences_two [OF p s2]
          occurrences_two [OF p s3] occurrences_no_sep [OF h0] occurrences_segment [OF eb] m
          add.assoc add_0)
qed

lemma count_patterns:
  fixes ex :: bool
  assumes nos: "0x3B \<notin> set h0" "0x3B \<notin> set date" "0x3B \<notin> set age"
    "0x3B \<notin> set (getPath c)" "0x3B \<notin> set (getDomain c)"
  defines "s \<equiv> h0 @ (if ex then 0x3B # (js '' expires='' @ date) else [])
                 @ (0x3B # (js '' Max-Age='' @ age)) @ attributes c"
  shows "occurrences (js ''; path='' @ getPath c) s = (if getPath c = [] then 0 else 1)"
    and "occurrences (js ''; domain='' @ getDomain c) s = (if getDomain c = [] then 0 else 1)"
    and "occurrences (js ''; secure'') s = (if isSecure c then 1 else 0)"
    and "occurrences (js ''; httponly'') s = (if isHttpOnly c then 1 else 0)"
    and "getSameSite c = NONE \<Longrightarrow> occurrences (js ''; samesite='') s = 0"
    and "getSameSite c \<noteq> NONE \<Longrightarrow>
           occurrences (js ''; samesite='' @ SameSite_valueOf (getSameSite c)) s = 1"
proof -
  have eb: "0x3B \<notin> set (js '' expires='' @ date)" and mb: "0x3B \<notin> set (js '' Max-Age='' @ age)"
    using nos(2,3) by (simp_all add: js_def)
  note out = occurrences_output [OF _ nos(1) eb mb, of _ ex c, folded s_def]
  note att = occurrences_attributes [OF _ nos(4,5)]
  have p1: "0x3B \<notin> set (js '' path='' @ getPath c)" using nos(4) by (simp add: js_def)
  have "occurrences (0x3B # (js '' path='' @ getPath c)) s = (if getPath c = [] then 0 else 1)"
    unfolding out [OF p1] att [OF p1]
    by (simp add: js_def starts_with_same)
  then show "occurrences (js ''; path='' @ getPath c) s = (if getPath c = [] then 0 else 1)"
    by (simp add: js_def)
  have p2: "0x3B \<notin> set (js '' domain='' @ getDomain c)" using nos(5) by (simp add: js_def)
  have "occurrences (0x3B # (js '' domain='' @ getDomain c)) s
          = (if getDomain c = [] then 0 else 1)"
    unfolding out [OF p2] att [OF p2]
    by (simp add: js_def starts_with_same)
  then show "occurrences (js ''; domain='' @ getDomain c) s = (if getDomain c = [] then 0 else 1)"
    by (simp add: js_def)
  have p3: "0x3B \<notin> set (js '' secure'')" by (simp add: js_def)
  have "occurrences (0x3B # js '' secure'') s = (if isSecure c then 1 else 0)"
    unfolding out [OF p3] att [OF p3]
    by (simp add: js_def)
  then show "occurrences (js ''; secure'') s = (if isSecure c then 1 else 0)"
    by (simp add: js_def)
  have p4: "0x3B \<notin> set (js '' httponly'')" by (simp add: js_def)
  have "occurrences (0x3B # js '' httponly'') s = (if isHttpOnly c then 1 else 0)"
    unfolding out [OF p4] att [OF p4]
    by (simp add: js_def)
  then show "occurrences (js ''; httponly'') s = (if isHttpOnly c then 1 else 0)"
    by (simp add: js_def)
  have p5: "0x3B \<notin> set (js '' samesite='')" by (simp add: js_def)
  have "occurrences (0x3B # js '' samesite='') s = 0" if "getSameSite c = NONE"
    unfolding out [OF p5] att [OF p5]
    using that by (simp add: js_def)
  then show "getSameSite c = NONE \<Longrightarrow> occurrences (js ''; samesite='') s = 0"
    by (simp add: js_def)
  have p6: "0x3B \<notin> set (js '' samesite='' @ SameSite_valueOf (getSameSite c))"
    using SameSite_valueOf_no_semicolon [of "getSameSite c"] by (simp add: js_def)
  have "occurrences (0x3B # (js '' samesite='' @ SameSite_valueOf (getSameSite c))) s = 1"
    if "getSameSite c \<noteq> NONE"
    unfolding out [OF p6] att [OF p6]
    using that by (simp add: js_def starts_with_same)
  then show "getSameSite c \<noteq> NONE \<Longrightarrow>
           occurrences (js ''; samesite='' @ SameSite_valueOf (getSameSite c)) s = 1"
    by (simp add: js_def)
qed

text \<open>The example environment at the timestamps of the examples below.\<close>

lemma example_past_time:
  "dayjs_subtract_year example_env 13 (Date_now example_env) = Num 1289772800000"
  by code_simp

lemma example_past_date:
  "Redate_responseFormat example_env (Num 1289772800000) = js ''Sun, 14 Nov 2010 22:13:20 GMT''"
  by code_simp

lemma example_date:
  "Redate_responseFormat example_env (Num 1700000100999) = js ''Tue, 14 Nov 2023 22:15:00 GMT''"
  by code_simp

lemma example_max_age:
  "Number_toString example_env
     (getMaxAge example_env (new_Cookie n v (Num 1700000100999) p d s h r ss)) = js ''100''"
  by (simp add: getMaxAge_def new_Cookie_getters)
     (simp add: example_env_def js_def)

lemma example_max_age_session:
  "Number_toString example_env (getMaxAge example_env (new_Cookie n v (Num 0) p d s h r ss))
     = js ''0''"
  by (simp add: getMaxAge_def new_Cookie_getters)
     (simp add: example_env_def js_def)

section \<open>Properties of the cookie\<close>

text \<open>
  Claim C5. \<open>setExpire\<close> raises InvalidArgument exactly when the timestamp is not 0 and
  \<open>dayjs\<close> does not find it valid; it raises nothing else; when it raises, the cookie is as
  it was, in every field; when the timestamp is 0 or valid, no exception is raised and
  \<open>expiresAt\<close> is the timestamp, the other fields being as they were.
\<close>

theorem setExpire_raises_iff_invalid:
  "(fst (setExpire env t c) = Inl InvalidArgumentException)
      = (t \<noteq> Num 0 \<and> \<not> dayjs_isValid env t)
   \<and> fst (setExpire env t c) \<noteq> Inl URIError
   \<and> (fst (setExpire env t c) = Inl InvalidArgumentException \<longrightarrow> snd (setExpire env t c) = c)
   \<and> (t = Num 0 \<or> dayjs_isValid env t \<longrightarrow>
        setExpire env t c = (Inr (), c\<lparr>c_expiresAt := t\<rparr>))"
  by (simp add: setExpire_def)

theorem setExpire_raises_iff_invalid_witness:
  "fst (setExpire example_env NaN (new_Cookie2 (js ''sid'') (js ''x''))) = Inl InvalidArgumentException
   \<and> snd (setExpire example_env NaN (new_Cookie2 (js ''sid'') (js ''x'')))
       = new_Cookie2 (js ''sid'') (js ''x'')
   \<and> (Num 86400000 = Num 0 \<or> dayjs_isValid example_env (Num 86400000))
   \<and> setExpire example_env (Num 86400000) (new_Cookie2 (js ''sid'') (js ''x''))
       = (Inr (), (new_Cookie2 (js ''sid'') (js ''x''))\<lparr>c_expiresAt := Num 86400000\<rparr>)"
  using setExpire_raises_iff_invalid [of example_env NaN "new_Cookie2 (js ''sid'') (js ''x'')"]
    setExpire_raises_iff_invalid [of example_env "Num 86400000" "new_Cookie2 (js ''sid'') (js ''x'')"]
  by (simp add: example_env_def)

text \<open>
  Claim C10. On a cookie whose value is not empty, \<open>toString\<close> leaves every field of the
  cookie as it was, whether it returns or raises; so a call that changes the cookie is a
  call on an empty value.
\<close>

theorem toString_nonempty_value_pure:
  "getValue c \<noteq> [] \<Longrightarrow> snd (toString env c) = c"
  by (simp add: toString_def Let_def split: sum.splits)

theorem toString_nonempty_value_pure_witness:
  "getValue (new_Cookie (js ''k'') (js ''v'') (Num 1700000100999) (js ''/'') [] False False False NONE) \<noteq> []
   \<and> snd (toString example_env
         (new_Cookie (js ''k'') (js ''v'') (Num 1700000100999) (js ''/'') [] False False False NONE))
       = new_Cookie (js ''k'') (js ''v'') (Num 1700000100999) (js ''/'') [] False False False NONE"
proof -
  have h: "getValue (new_Cookie (js ''k'') (js ''v'') (Num 1700000100999) (js ''/'') [] False False False NONE) \<noteq> []"
    by (simp add: getValue_def new_Cookie_def js_def)
  from toString_nonempty_value_pure [OF h, of example_env] h show ?thesis
    by simp
qed

text \<open>
  Claim C1, as stated: on every cookie with an empty value \<open>toString\<close> first expires the
  cookie and returns a text. A cookie that is not raw and whose name holds a lone
  surrogate refutes it: \<open>encodeURIComponent\<close> raises URIError on the name, before the
  value is looked at, so nothing is returned and \<open>expiresAt\<close> keeps its value.
\<close>

theorem toString_empty_value_raises:
  "toString example_env (new_Cookie [0xD800] [] (Num 0) (js ''/'') [] False False False NONE) =
     (Inl URIError, new_Cookie [0xD800] [] (Num 0) (js ''/'') [] False False False NONE)"
  by (simp add: toString_def rawIfNeededOf_def new_Cookie_getters
        unescapedSet_def isLeadingSurrogate_def isTrailingSurrogate_def)

text \<open>
  Claim C1, amended. On a cookie with an empty value: when the name cannot be emitted
  (the cookie is not raw and \<open>encodeURIComponent\<close> raises on the name), \<open>toString\<close>
  raises that exception and the cookie is as it was. When the name is emitted as \<open>nm\<close>
  and the time thirteen years before the clock is valid for \<open>dayjs\<close>, \<open>toString\<close> leaves
  the cookie as \<open>expire\<close> does, with \<open>expiresAt\<close> at that time, and returns \<open>nm\<close>, then
  \<open>=\<close>, then \<open>; expires=\<close> with the formatted date of that time, then \<open>; Max-Age=0\<close>,
  then the attributes; that time is in the past of the clock whenever the subtraction of
  \<open>dayjs\<close> yields an earlier time; and the result is the same whatever \<open>expiresAt\<close> was
  before.
\<close>

theorem toString_empty_value_expires:
  assumes empty: "getValue c = []"
  shows "(rawIfNeededOf c (getName c) = Inl e \<longrightarrow> toString env c = (Inl e, c))
    \<and> (rawIfNeededOf c (getName c) = Inr nm
         \<and> dayjs_isValid env (dayjs_subtract_year env 13 (Date_now env)) \<longrightarrow>
         toString env c =
           (Inr (nm @ js ''='' @ js ''; expires=''
                   @ Redate_responseFormat env (dayjs_subtract_year env 13 (Date_now env))
                   @ js ''; Max-Age=0'' @ attributes c),
            c\<lparr>c_expiresAt := dayjs_subtract_year env 13 (Date_now env)\<rparr>)
         \<and> snd (toString env c) = snd (expire env c)
         \<and> (number_less (dayjs_subtract_year env 13 (Date_now env)) (Date_now env) \<longrightarrow>
              number_less (getExpiry (snd (toString env c))) (Date_now env))
         \<and> toString env (c\<lparr>c_expiresAt := previous\<rparr>) = toString env c)"
proof -
  have raises: "toString env c = (Inl e, c)" if "rawIfNeededOf c (getName c) = Inl e"
    using that by (simp add: toString_empty [OF empty])
  have returns: "toString env c =
           (Inr (nm @ js ''='' @ js ''; expires=''
                   @ Redate_responseFormat env (dayjs_subtract_year env 13 (Date_now env))
                   @ js ''; Max-Age=0'' @ attributes c),
            c\<lparr>c_expiresAt := dayjs_subtract_year env 13 (Date_now env)\<rparr>)
         \<and> snd (toString env c) = snd (expire env c)
         \<and> (number_less (dayjs_subtract_year env 13 (Date_now env)) (Date_now env) \<longrightarrow>
              number_less (getExpiry (snd (toString env c))) (Date_now env))
         \<and> toString env (c\<lparr>c_expiresAt := previous\<rparr>) = toString env c"
    if nm: "rawIfNeededOf c (getName c) = Inr nm"
      and valid: "dayjs_isValid env (dayjs_subtract_year env 13 (Date_now env))"
  proof -
    have t: "toString env c =
           (Inr (nm @ js ''='' @ js ''; expires=''
                   @ Redate_responseFormat env (dayjs_subtract_year env 13 (Date_now env))
                   @ js ''; Max-Age=0'' @ attributes c),
            c\<lparr>c_expiresAt := dayjs_subtract_year env 13 (Date_now env)\<rparr>)"
      using nm valid by (simp add: toString_empty [OF empty] js_def)
    have e: "snd (expire env c) = c\<lparr>c_expiresAt := dayjs_subtract_year env 13 (Date_now env)\<rparr>"
      using valid by (simp add: expire_def setExpire_def)
    have empty': "getValue (c\<lparr>c_expiresAt := previous\<rparr>) = []"
      using empty by (simp add: getValue_def)
    have nm': "rawIfNeededOf (c\<lparr>c_expiresAt := previous\<rparr>)
                 (getName (c\<lparr>c_expiresAt := previous\<rparr>)) = Inr nm"
      using nm by (simp add: rawIfNeededOf_def getName_def isRaw_def)
    have p: "toString env (c\<lparr>c_expiresAt := previous\<rparr>) = toString env c"
      using nm nm' valid
      by (simp add: toString_empty [OF empty] toString_empty [OF empty'] attributes_expiresAt)
    show ?thesis
      using t e p by (simp add: getExpiry_def)
  qed
  from raises returns show ?thesis by blast
qed

theorem toString_empty_value_expires_witness:
  "getValue (new_Cookie (js ''sid'') [] (Num 1700000100999) (js ''/'') [] False False True NONE) = []
   \<and> rawIfNeededOf (new_Cookie (js ''sid'') [] (Num 1700000100999) (js ''/'') [] False False True NONE)
        (getName (new_Cookie (js ''sid'') [] (Num 1700000100999) (js ''/'') [] False False True NONE))
       = Inr (js ''sid'')
   \<and> dayjs_isValid example_env (dayjs_subtract_year example_env 13 (Date_now example_env))
   \<and> number_less (dayjs_subtract_year example_env 13 (Date_now example_env)) (Date_now example_env)
   \<and> toString example_env
        (new_Cookie (js ''sid'') [] (Num 1700000100999) (js ''/'') [] False False True NONE) =
       (Inr (js ''sid=; expires=Sun, 14 Nov 2010 22:13:20 GMT; Max-Age=0; path=/''),
        new_Cookie (js ''sid'') [] (Num 1289772800000) (js ''/'') [] False False True NONE)
   \<and> number_less
        (getExpiry (snd (toString example_env
          (new_Cookie (js ''sid'') [] (Num 1700000100999) (js ''/'') [] False False True NONE))))
        (Date_now example_env)"
proof -
  let ?c = "new_Cookie (js ''sid'') [] (Num 1700000100999) (js ''/'') [] False False True NONE"
  have h1: "getValue ?c = []"
    by (simp add: new_Cookie_getters)
  have h2: "rawIfNeededOf ?c (getName ?c) = Inr (js ''sid'')"
    by (simp add: rawIfNeededOf_def new_Cookie_getters)
  have h3: "dayjs_isValid example_env (dayjs_subtract_year example_env 13 (Date_now example_env))"
    unfolding example_past_time by (simp add: example_env_def)
  have h4: "number_less (dayjs_subtract_year example_env 13 (Date_now example_env))
              (Date_now example_env)"
    unfolding example_past_time by (simp add: example_env_def)
  from toString_empty_value_expires [OF h1, where e = URIError and nm = "js ''sid''"
      and env = example_env and previous = "Num 0"] h2 h3 h4
  have t: "toString example_env ?c =
           (Inr (js ''sid'' @ js ''='' @ js ''; expires=''
                   @ Redate_responseFormat example_env
                       (dayjs_subtract_year example_env 13 (Date_now example_env))
                   @ js ''; Max-Age=0'' @ attributes ?c),
            ?c\<lparr>c_expiresAt := dayjs_subtract_year example_env 13 (Date_now example_env)\<rparr>)"
    and p: "number_less (getExpiry (snd (toString example_env ?c))) (Date_now example_env)"
    by blast+
  have "toString example_env ?c =
       (Inr (js ''sid=; expires=Sun, 14 Nov 2010 22:13:20 GMT; Max-Age=0; path=/''),
        new_Cookie (js ''sid'') [] (Num 1289772800000) (js ''/'') [] False False True NONE)"
    unfolding t example_past_time example_past_date
    by (simp add: attributes_unfold new_Cookie_getters) (simp add: js_def)
  with h1 h2 h3 h4 p show ?thesis by - (intro conjI, assumption+)
qed

text \<open>
  Claim C6, as stated: with the five attributes set, each attribute text occurs exactly
  once in the output of every cookie with a name and a value, and the text of an
  attribute left out does not occur at all. A raw cookie whose value is \<open>v; secure\<close>
  refutes both halves: with \<open>secure\<close> set the text \<open>; secure\<close> occurs twice, and with
  \<open>secure\<close> not set it occurs once.
\<close>

theorem toString_repeats_attribute_text:
  "fst (toString example_env
          (new_Cookie (js ''k'') (js ''v; secure'') (Num 0) (js ''/app'') (js ''example.com'')
             True True True STRICT)) =
     Inr (js ''k=v; secure; Max-Age=0; path=/app; domain=example.com; secure; httponly; samesite=strict'')
   \<and> occurrences (js ''; secure'')
        (js ''k=v; secure; Max-Age=0; path=/app; domain=example.com; secure; httponly; samesite=strict'')
       = 2
   \<and> fst (toString example_env
          (new_Cookie (js ''k'') (js ''v; secure'') (Num 0) (js ''/'') [] False False True NONE)) =
     Inr (js ''k=v; secure; Max-Age=0; path=/'')
   \<and> occurrences (js ''; secure'') (js ''k=v; secure; Max-Age=0; path=/'') = 1"
proof -
  have v: "js ''v; secure'' \<noteq> []"
    by (simp add: js_def)
  have a: "fst (toString example_env
          (new_Cookie (js ''k'') (js ''v; secure'') (Num 0) (js ''/app'') (js ''example.com'')
             True True True STRICT)) =
     Inr (js ''k=v; secure; Max-Age=0; path=/app; domain=example.com; secure; httponly; samesite=strict'')"
    using v
    by (simp add: toString_nonempty rawIfNeededOf_def new_Cookie_getters
          example_max_age_session attributes_unfold)
       (simp add: js_def)
  have b: "occurrences (js ''; secure'')
        (js ''k=v; secure; Max-Age=0; path=/app; domain=example.com; secure; httponly; samesite=strict'')
       = 2"
    by (simp add: js_def)
  have c: "fst (toString example_env
          (new_Cookie (js ''k'') (js ''v; secure'') (Num 0) (js ''/'') [] False False True NONE)) =
     Inr (js ''k=v; secure; Max-Age=0; path=/'')"
    using v
    by (simp add: toString_nonempty rawIfNeededOf_def new_Cookie_getters
          example_max_age_session attributes_unfold)
       (simp add: js_def)
  have d: "occurrences (js ''; secure'') (js ''k=v; secure; Max-Age=0; path=/'') = 1"
    by (simp add: js_def)
  from a b c d show ?thesis by - (intro conjI, assumption+)
qed

text \<open>
  Claim C6, amended. The text that \<open>toString\<close> returns ends with the attributes, each
  one appended once and in this order: \<open>; path=\<close> and the path when the path is not empty,
  \<open>; domain=\<close> and the domain when the domain is not empty, \<open>; secure\<close> when secure,
  \<open>; httponly\<close> when httpOnly, \<open>; samesite=\<close> and the string of the enum when sameSite is
  not None; an attribute at its omitted value appends nothing. The text of an attribute
  that is emitted occurs exactly once in the whole output, and the text of one that is
  left out does not occur, when no semicolon is written with what comes before the
  attributes or within them: none in the path and the domain; none in the name and the
  value of a raw cookie (those of a cookie that is not raw are percent-encoded, and
  may hold any text); none in the formatted date when \<open>expires\<close> is written, and none in
  the printed Max-Age when it is computed.
\<close>

theorem toString_attribute_emission:
  assumes ret: "toString env c = (Inr s, c')"
  shows "(\<exists>head. s = head
            @ (if getPath c \<noteq> [] then js ''; path='' @ getPath c else [])
            @ (if getDomain c \<noteq> [] then js ''; domain='' @ getDomain c else [])
            @ (if isSecure c then js ''; secure'' else [])
            @ (if isHttpOnly c then js ''; httponly'' else [])
            @ (if getSameSite c \<noteq> NONE
               then js ''; samesite='' @ SameSite_valueOf (getSameSite c) else []))
    \<and> ((isRaw c \<longrightarrow> 0x3B \<notin> set (getName c) \<union> set (getValue c))
         \<and> 0x3B \<notin> set (getPath c) \<union> set (getDomain c)
         \<and> (getValue c = [] \<or> getExpiry c \<noteq> Num 0 \<longrightarrow>
              0x3B \<notin> set (Redate_responseFormat env (getExpiry c')))
         \<and> (getValue c \<noteq> [] \<longrightarrow> 0x3B \<notin> set (Number_toString env (getMaxAge env c))) \<longrightarrow>
         occurrences (js ''; path='' @ getPath c) s = (if getPath c = [] then 0 else 1)
         \<and> occurrences (js ''; domain='' @ getDomain c) s = (if getDomain c = [] then 0 else 1)
         \<and> occurrences (js ''; secure'') s = (if isSecure c then 1 else 0)
         \<and> occurrences (js ''; httponly'') s = (if isHttpOnly c then 1 else 0)
         \<and> (getSameSite c = NONE \<longrightarrow> occurrences (js ''; samesite='') s = 0)
         \<and> (getSameSite c \<noteq> NONE \<longrightarrow>
               occurrences (js ''; samesite='' @ SameSite_valueOf (getSameSite c)) s = 1))"
proof -
  define ex where "ex = (getValue c = [] \<or> getExpiry c \<noteq> Num 0)"
  define date where "date = (if ex then Redate_responseFormat env (getExpiry c') else [])"
  define age where
    "age = (if getValue c = [] then js ''0'' else Number_toString env (getMaxAge env c))"
  from toString_returns [OF ret] obtain h0 where
    s0: "s = h0 @ (if getValue c = [] \<or> getExpiry c \<noteq> Num 0
                   then 0x3B # (js '' expires='' @ Redate_responseFormat env (getExpiry c'))
                   else [])
               @ (0x3B # (js '' Max-Age=''
                    @ (if getValue c = [] then js ''0''
                       else Number_toString env (getMaxAge env c))))
               @ attributes c"
    and h0: "(isRaw c \<longrightarrow> 0x3B \<notin> set (getName c) \<union> set (getValue c)) \<longrightarrow> 0x3B \<notin> set h0"
    by blast
  have s: "s = h0 @ (if ex then 0x3B # (js '' expires='' @ date) else [])
               @ (0x3B # (js '' Max-Age='' @ age)) @ attributes c"
    unfolding s0 ex_def date_def age_def by simp
  have "s = (h0 @ (if ex then 0x3B # (js '' expires='' @ date) else [])
               @ (0x3B # (js '' Max-Age='' @ age))) @ attributes c"
    by (simp add: s)
  then have shape: "\<exists>head. s = head
            @ (if getPath c \<noteq> [] then js ''; path='' @ getPath c else [])
            @ (if getDomain c \<noteq> [] then js ''; domain='' @ getDomain c else [])
            @ (if isSecure c then js ''; secure'' else [])
            @ (if isHttpOnly c then js ''; httponly'' else [])
            @ (if getSameSite c \<noteq> NONE
               then js ''; samesite='' @ SameSite_valueOf (getSameSite c) else [])"
    unfolding attributes_unfold by blast
  have counts: "occurrences (js ''; path='' @ getPath c) s = (if getPath c = [] then 0 else 1)
         \<and> occurrences (js ''; domain='' @ getDomain c) s = (if getDomain c = [] then 0 else 1)
         \<and> occurrences (js ''; secure'') s = (if isSecure c then 1 else 0)
         \<and> occurrences (js ''; httponly'') s = (if isHttpOnly c then 1 else 0)
         \<and> (getSameSite c = NONE \<longrightarrow> occurrences (js ''; samesite='') s = 0)
         \<and> (getSameSite c \<noteq> NONE \<longrightarrow>
               occurrences (js ''; samesite='' @ SameSite_valueOf (getSameSite c)) s = 1)"
    if nos: "(isRaw c \<longrightarrow> 0x3B \<notin> set (getName c) \<union> set (getValue c))
         \<and> 0x3B \<notin> set (getPath c) \<union> set (getDomain c)
         \<and> (getValue c = [] \<or> getExpiry c \<noteq> Num 0 \<longrightarrow>
              0x3B \<notin> set (Redate_responseFormat env (getExpiry c')))
         \<and> (getValue c \<noteq> [] \<longrightarrow> 0x3B \<notin> set (Number_toString env (getMaxAge env c)))"
  proof -
    have a: "0x3B \<notin> set h0" using h0 nos by blast
    have b: "0x3B \<notin> set date" using nos by (auto simp add: date_def ex_def)
    have c: "0x3B \<notin> set age" using nos by (simp add: age_def js_def)
    have d: "0x3B \<notin> set (getPath c)" "0x3B \<notin> set (getDomain c)" using nos by simp_all
    note cp = count_patterns [OF a b c d, of ex, folded s]
    from cp show ?thesis by blast
  qed
  from shape counts show ?thesis by blast
qed

theorem toString_attribute_emission_witness:
  "toString example_env
     (new_Cookie (js ''k'') (js ''v'') (Num 1700000100999) (js ''/app'') (js ''example.com'')
        True True True STRICT) =
     (Inr (js ''k=v; expires=Tue, 14 Nov 2023 22:15:00 GMT; Max-Age=100; path=/app; domain=example.com; secure; httponly; samesite=strict''),
      new_Cookie (js ''k'') (js ''v'') (Num 1700000100999) (js ''/app'') (js ''example.com'')
        True True True STRICT)
   \<and> 0x3B \<notin> set (js ''k'') \<union> set (js ''v'') \<union> set (js ''/app'') \<union> set (js ''example.com'')
              \<union> set (js ''Tue, 14 Nov 2023 22:15:00 GMT'') \<union> set (js ''100'')
   \<and> occurrences (js ''; path=/app'')
        (js ''k=v; expires=Tue, 14 Nov 2023 22:15:00 GMT; Max-Age=100; path=/app; domain=example.com; secure; httponly; samesite=strict'') = 1
   \<and> occurrences (js ''; domain=example.com'')
        (js ''k=v; expires=Tue, 14 Nov 2023 22:15:00 GMT; Max-Age=100; path=/app; domain=example.com; secure; httponly; samesite=strict'') = 1
   \<and> occurrences (js ''; secure'')
        (js ''k=v; expires=Tue, 14 Nov 2023 22:15:00 GMT; Max-Age=100; path=/app; domain=example.com; secure; httponly; samesite=strict'') = 1
   \<and> occurrences (js ''; httponly'')
        (js ''k=v; expires=Tue, 14 Nov 2023 22:15:00 GMT; Max-Age=100; path=/app; domain=example.com; secure; httponly; samesite=strict'') = 1
   \<and> occurrences (js ''; samesite=strict'')
        (js ''k=v; expires=Tue, 14 Nov 2023 22:15:00 GMT; Max-Age=100; path=/app; domain=example.com; secure; httponly; samesite=strict'') = 1
   \<and> toString example_env
       (new_Cookie (js ''k'') (js ''v; secure'') (Num 0) (js ''/'') [] True False False NONE) =
       (Inr (js ''k=v%3B%20secure; Max-Age=0; path=/; secure''),
        new_Cookie (js ''k'') (js ''v; secure'') (Num 0) (js ''/'') [] True False False NONE)
   \<and> occurrences (js ''; secure'') (js ''k=v%3B%20secure; Max-Age=0; path=/; secure'') = 1
   \<and> occurrences (js ''; httponly'') (js ''k=v%3B%20secure; Max-Age=0; path=/; secure'') = 0"
proof -
  let ?c = "new_Cookie (js ''k'') (js ''v'') (Num 1700000100999) (js ''/app'')
              (js ''example.com'') True True True STRICT"
  let ?s = "js ''k=v; expires=Tue, 14 Nov 2023 22:15:00 GMT; Max-Age=100; path=/app; domain=example.com; secure; httponly; samesite=strict''"
  let ?d = "new_Cookie (js ''k'') (js ''v; secure'') (Num 0) (js ''/'') [] True False False NONE"
  let ?t = "js ''k=v%3B%20secure; Max-Age=0; path=/; secure''"
  have v: "js ''v'' \<noteq> []" "js ''/app'' \<noteq> []" "js ''example.com'' \<noteq> []"
    "js ''v; secure'' \<noteq> []" "js ''/'' \<noteq> []"
    by (simp_all add: js_def)
  have t: "toString example_env ?c = (Inr ?s, ?c)"
    using v
    by (simp add: toString_nonempty rawIfNeededOf_def new_Cookie_getters example_date
          example_max_age attributes_unfold)
       (simp add: js_def)
  have n: "0x3B \<notin> set (js ''k'') \<union> set (js ''v'') \<union> set (js ''/app'') \<union> set (js ''example.com'')
              \<union> set (js ''Tue, 14 Nov 2023 22:15:00 GMT'') \<union> set (js ''100'')"
    by (simp add: js_def)
  have n': "(isRaw ?c \<longrightarrow> 0x3B \<notin> set (getName ?c) \<union> set (getValue ?c))
         \<and> 0x3B \<notin> set (getPath ?c) \<union> set (getDomain ?c)
         \<and> (getValue ?c = [] \<or> getExpiry ?c \<noteq> Num 0 \<longrightarrow>
              0x3B \<notin> set (Redate_responseFormat example_env (getExpiry ?c)))
         \<and> (getValue ?c \<noteq> [] \<longrightarrow>
              0x3B \<notin> set (Number_toString example_env (getMaxAge example_env ?c)))"
    by (simp add: new_Cookie_getters example_date example_max_age js_def)
  from toString_attribute_emission [OF t] n'
  have "occurrences (js ''; path='' @ getPath ?c) ?s = (if getPath ?c = [] then 0 else 1)"
    and "occurrences (js ''; domain='' @ getDomain ?c) ?s = (if getDomain ?c = [] then 0 else 1)"
    and "occurrences (js ''; secure'') ?s = (if isSecure ?c then 1 else 0)"
    and "occurrences (js ''; httponly'') ?s = (if isHttpOnly ?c then 1 else 0)"
    and "getSameSite ?c \<noteq> NONE \<longrightarrow>
           occurrences (js ''; samesite='' @ SameSite_valueOf (getSameSite ?c)) ?s = 1"
    by blast+
  then have o: "occurrences (js ''; path=/app'') ?s = 1"
    "occurrences (js ''; domain=example.com'') ?s = 1"
    "occurrences (js ''; secure'') ?s = 1"
    "occurrences (js ''; httponly'') ?s = 1"
    "occurrences (js ''; samesite=strict'') ?s = 1"
    using v by (simp_all add: new_Cookie_getters js_def)
  have en: "encodeURIComponent (js ''k'') = Inr (js ''k'')"
    "encodeURIComponent (js ''v; secure'') = Inr (js ''v%3B%20secure'')"
    by (simp_all add: js_def unescapedSet_def isLeadingSurrogate_def isTrailingSurrogate_def
          utf8_encode_def pctOctet_def hexDigit_def)
  have t2: "toString example_env ?d = (Inr ?t, ?d)"
    using v
    by (simp add: toString_nonempty rawIfNeededOf_def new_Cookie_getters en
          example_max_age_session attributes_unfold)
       (simp add: js_def)
  have m': "(isRaw ?d \<longrightarrow> 0x3B \<notin> set (getName ?d) \<union> set (getValue ?d))
         \<and> 0x3B \<notin> set (getPath ?d) \<union> set (getDomain ?d)
         \<and> (getValue ?d = [] \<or> getExpiry ?d \<noteq> Num 0 \<longrightarrow>
              0x3B \<notin> set (Redate_responseFormat example_env (getExpiry ?d)))
         \<and> (getValue ?d \<noteq> [] \<longrightarrow>
              0x3B \<notin> set (Number_toString example_env (getMaxAge example_env ?d)))"
    using v by (simp add: new_Cookie_getters example_max_age_session) (simp add: js_def)
  from toString_attribute_emission [OF t2] m'
  have "occurrences (js ''; secure'') ?t = (if isSecure ?d then 1 else 0)"
    and "occurrences (js ''; httponly'') ?t = (if isHttpOnly ?d then 1 else 0)"
    by blast+
  then have o2: "occurrences (js ''; secure'') ?t = 1" "occurrences (js ''; httponly'') ?t = 0"
    by (simp_all add: new_Cookie_getters)
  from t n o t2 o2 show ?thesis by - (intro conjI, assumption+)
qed

end
